theory Spec2Isabelle
  imports Main "HOL-Library.Multiset" "HOL-Library.Char_ord" "HOL-Library.List_Lexorder"
    "HOL-Library.Product_Lexorder"
begin

section \<open>GitTime AI frontend: data model\<close>

text \<open>
  The React frontend under \<^verbatim>\<open>src/frontend/src\<close> is embedded as pure functions: a component is
  a function from its props (and its local state) to a value describing what it renders, an
  event handler is a function from the state it closes over to the next state together with
  the API requests it issues, and an \<^verbatim>\<open>async\<close> function is split at its \<^verbatim>\<open>await\<close> into the part
  that runs before the request is sent and the part that runs when the request settles.

  A JavaScript value that may be \<^verbatim>\<open>undefined\<close> or \<^verbatim>\<open>null\<close> is an \<open>option\<close>. Line counts are
  JavaScript numbers holding integers; they are \<open>int\<close>, and where the code adds them the sum
  is rounded as a double rounds it (\<open>js_add\<close>). Text that the code only passes on,
  compares or splits at \<^verbatim>\<open>/\<close> is a \<open>string\<close>; the text typed into the repository field, which
  the code trims, is a list of UTF-16 code units.
\<close>

type_synonym js_string = "nat list"

record feature =
  feature_id :: string
  name :: string
  description :: string
  files :: "string list"

record analysis_data =
  repo :: string
  features :: "feature list"

record version_entry =
  version :: string
  version_date :: string
  version_description :: string

record changed_file =
  status :: "string option"
  filename :: string
  additions :: "int option"
  deletions :: "int option"

record commit =
  sha :: string
  message :: string
  author :: string
  date :: string
  total_additions :: "int option"
  total_deletions :: "int option"
  evolution_summary :: string
  files_changed :: "changed_file list option"

section \<open>FeatureCard.jsx\<close>

text \<open>
  \<^verbatim>\<open>f.split('/')\<close>: the pieces of \<open>f\<close> between the separators; the empty string splits into
  one empty piece. \<^verbatim>\<open>pop()\<close> returns the last element of an array, \<^verbatim>\<open>undefined\<close> for an empty
  one, and React renders \<^verbatim>\<open>undefined\<close> as no text.
\<close>

fun split_on :: "char \<Rightarrow> string \<Rightarrow> string list" where
  "split_on sep [] = [[]]"
| "split_on sep (c # cs) =
     (if c = sep then [] # split_on sep cs
      else (case split_on sep cs of
              [] \<Rightarrow> [[c]]
            | p # ps \<Rightarrow> (c # p) # ps))"

fun pop :: "'a list \<Rightarrow> 'a option" where
  "pop [] = None"
| "pop [x] = Some x"
| "pop (x # y # ys) = pop (y # ys)"

definition rendered_text :: "string option \<Rightarrow> string" where
  "rendered_text t = (case t of None \<Rightarrow> [] | Some s \<Rightarrow> s)"

datatype file_badge = FileName string | More nat

record card_view =
  card_active :: bool
  card_title :: string
  card_text :: string
  card_files :: "file_badge list option"

definition FeatureCard :: "feature \<Rightarrow> bool \<Rightarrow> card_view" where
  "FeatureCard f active =
     \<lparr> card_active = active,
       card_title = name f,
       card_text = description f,
       card_files =
         (if length (files f) > 0
          then Some (map (\<lambda>p. FileName (rendered_text (pop (split_on (CHR ''/'') p))))
                       (take 5 (files f))
                     @ (if length (files f) > 5 then [More (length (files f) - 5)] else []))
          else None) \<rparr>"

text \<open>\<^verbatim>\<open>FeatureList\<close> renders one card per feature, in order, the active one marked.\<close>

definition FeatureList :: "feature list \<Rightarrow> string option \<Rightarrow> card_view list" where
  "FeatureList fs activeId = map (\<lambda>f. FeatureCard f (Some (feature_id f) = activeId)) fs"

section \<open>RepoInput.jsx\<close>

text \<open>
  \<^verbatim>\<open>String.prototype.trim\<close> removes the code units of ECMAScript's WhiteSpace and
  LineTerminator productions from both ends: TAB, LF, VT, FF, CR, SP, NBSP, U+1680,
  U+2000 to U+200A, U+2028, U+2029, U+202F, U+205F, U+3000 and U+FEFF.
\<close>

definition is_white_space :: "nat \<Rightarrow> bool" where
  "is_white_space c =
     (c = 9 \<or> c = 10 \<or> c = 11 \<or> c = 12 \<or> c = 13 \<or> c = 32 \<or> c = 160 \<or> c = 5760
      \<or> (8192 \<le> c \<and> c \<le> 8202)
      \<or> c = 8232 \<or> c = 8233 \<or> c = 8239 \<or> c = 8287 \<or> c = 12288 \<or> c = 65279)"

definition trim :: "js_string \<Rightarrow> js_string" where
  "trim s = rev (dropWhile is_white_space (rev (dropWhile is_white_space s)))"

text \<open>
  \<^verbatim>\<open>handleSubmit\<close>: \<^verbatim>\<open>if (url.trim()) onAnalyze(url.trim())\<close>. A string is truthy when it is not
  empty. The result is the argument \<^verbatim>\<open>onAnalyze\<close> is called with, \<open>None\<close> when it is not called.
\<close>

definition handleSubmit :: "js_string \<Rightarrow> js_string option" where
  "handleSubmit url = (if trim url \<noteq> [] then Some (trim url) else None)"

record repo_input_view =
  input_disabled :: bool
  button_disabled :: bool

definition RepoInput :: "bool \<Rightarrow> js_string \<Rightarrow> repo_input_view" where
  "RepoInput loading url =
     \<lparr> input_disabled = loading,
       button_disabled = (loading \<or> \<not> (trim url \<noteq> [])) \<rparr>"

text \<open>
  The form has one submit button and one text field. The browser fires the form's submit
  event when the button is clicked or Enter is pressed in the field, and in both cases only
  while the submit button is not disabled (HTML's implicit submission activates the default
  button). \<open>form_submit\<close> is what a user's attempt to submit the form with the text \<open>url\<close> in
  the field makes of \<^verbatim>\<open>onAnalyze\<close>.
\<close>

definition form_submit :: "bool \<Rightarrow> js_string \<Rightarrow> js_string option" where
  "form_submit loading url =
     (if button_disabled (RepoInput loading url) then None else handleSubmit url)"

section \<open>CommitEvolution (in FeatureList.jsx)\<close>

text \<open>
  \<^verbatim>\<open>x || 0\<close> on a count that may be missing, and the comparisons \<^verbatim>\<open>x > 0\<close> and \<^verbatim>\<open>x === 0\<close>:
  a missing count is neither greater than nor identical to zero.
\<close>

definition or_zero :: "int option \<Rightarrow> int" where
  "or_zero x = (case x of None \<Rightarrow> 0 | Some n \<Rightarrow> if n = 0 then 0 else n)"

text \<open>
  \<^verbatim>\<open>a + b\<close> on two numbers that hold integers: the exact sum, rounded to the nearest double,
  a tie going to the even significand. A double holds every integer of magnitude up to
  \<open>2^53\<close> and, beyond, the multiples of \<open>2^e\<close> by a 53-bit integer; \<open>excess_bits\<close> is that \<open>e\<close>.
  Sums of magnitude \<open>2^1024\<close> and more, which JavaScript turns into \<^verbatim>\<open>Infinity\<close>, are outside the
  model.
\<close>

function excess_bits :: "nat \<Rightarrow> nat" where
  "excess_bits a = (if a < 2 ^ 53 then 0 else Suc (excess_bits (a div 2)))"
  by pat_completeness auto
termination
  by (relation "measure id") auto

declare excess_bits.simps [simp del]

definition round_double :: "int \<Rightarrow> int" where
  "round_double x =
     (let a = nat \<bar>x\<bar>;
          e = excess_bits a;
          q = a div 2 ^ e;
          r = a mod 2 ^ e;
          q' = (if 2 * r > 2 ^ e \<or> (2 * r = 2 ^ e \<and> odd q) then q + 1 else q)
      in sgn x * int (q' * 2 ^ e))"

definition js_add :: "int \<Rightarrow> int \<Rightarrow> int" where
  "js_add a b = round_double (a + b)"

datatype stat = StatAdd int | StatDel int | StatNone

record file_row =
  row_name :: string
  row_stats :: "stat list"

text \<open>
  \<^verbatim>\<open>FileStat\<close> renders one row per file: its name and, in order, the additions badge when
  \<^verbatim>\<open>file.additions > 0\<close>, the deletions badge when \<^verbatim>\<open>file.deletions > 0\<close>, and the \<^verbatim>\<open>0\<close> badge
  when both are \<^verbatim>\<open>=== 0\<close>. The status badge of the row (a colour and a letter looked up from
  \<^verbatim>\<open>file.status\<close>) is not part of the model.
\<close>

definition FileStat :: "changed_file \<Rightarrow> file_row" where
  "FileStat file =
     \<lparr> row_name = filename file,
       row_stats =
         (case additions file of
            Some a \<Rightarrow> if a > 0 then [StatAdd a] else []
          | None \<Rightarrow> [])
         @ (case deletions file of
              Some d \<Rightarrow> if d > 0 then [StatDel d] else []
            | None \<Rightarrow> [])
         @ (if additions file = Some 0 \<and> deletions file = Some 0 then [StatNone] else []) \<rparr>"

record file_list_view =
  files_count :: nat
  files_plural :: bool
  list_adds :: int
  list_dels :: int
  file_rows :: "file_row list"

record commit_detail =
  explanation :: string
  detail_author :: string
  detail_date :: string
  file_list :: "file_list_view option"

record commit_row =
  row_open :: bool
  row_sha :: string
  row_message :: string
  summary_stats :: "stat list"
  row_date :: string
  detail :: "commit_detail option"

text \<open>
  \<^verbatim>\<open>CommitRow\<close> has one piece of local state, \<^verbatim>\<open>open\<close> (initially false, toggled by a click on
  the row); it is the first argument here.
\<close>

definition CommitRow :: "bool \<Rightarrow> commit \<Rightarrow> commit_row" where
  "CommitRow opened c =
     (let totalAdds = or_zero (total_additions c);
          totalDels = or_zero (total_deletions c)
      in \<lparr> row_open = opened,
            row_sha = sha c,
            row_message = message c,
            summary_stats =
              (if totalAdds > 0 then [StatAdd totalAdds] else [])
              @ (if totalDels > 0 then [StatDel totalDels] else []),
            row_date = date c,
            detail =
              (if opened
               then Some \<lparr> explanation = evolution_summary c,
                           detail_author = author c,
                           detail_date = date c,
                           file_list =
                             (case files_changed c of
                                None \<Rightarrow> None
                              | Some fs \<Rightarrow>
                                  if length fs > 0
                                  then Some \<lparr> files_count = length fs,
                                              files_plural = (length fs > 1),
                                              list_adds = totalAdds,
                                              list_dels = totalDels,
                                              file_rows = map FileStat fs \<rparr>
                                  else None) \<rparr>
               else None) \<rparr>)"

record evolution_view =
  totalCommits :: nat
  commits_plural :: bool
  totalAdds :: int
  totalDels :: int
  rows :: "commit_row list"

datatype evolution_panel =
    EvolutionLoading string
  | EvolutionEmpty string
  | EvolutionList string evolution_view
  | EvolutionRenderFails

text \<open>
  \<^verbatim>\<open>CommitEvolution\<close>: the loading panel, the panel that says
  \<^verbatim>\<open>No commit-level evolution could be determined.\<close>, or the list with its totals. Each panel
  carries the feature's name, its heading. (\<open>EvolutionRenderFails\<close> is not a result of the
  component for a list; \<^verbatim>\<open>App\<close> below needs it.) \<open>opens i\<close> is the \<^verbatim>\<open>open\<close> state of the row at
  index \<open>i\<close>. \<^verbatim>\<open>reduce\<close> folds from the left, starting at \<open>0\<close>.
\<close>

definition CommitEvolution ::
  "(nat \<Rightarrow> bool) \<Rightarrow> feature \<Rightarrow> commit list option \<Rightarrow> bool \<Rightarrow> evolution_panel" where
  "CommitEvolution opens f evolution busy =
     (if busy then EvolutionLoading (name f)
      else (case evolution of
              None \<Rightarrow> EvolutionEmpty (name f)
            | Some ev \<Rightarrow>
                if length ev = 0 then EvolutionEmpty (name f)
                else EvolutionList (name f)
                       \<lparr> totalCommits = length ev,
                         commits_plural = (length ev > 1),
                         totalAdds = foldl (\<lambda>s c. js_add s (or_zero (total_additions c))) 0 ev,
                         totalDels = foldl (\<lambda>s c. js_add s (or_zero (total_deletions c))) 0 ev,
                         rows = map (\<lambda>(i, c). CommitRow (opens i) c) (enumerate 0 ev) \<rparr>))"

section \<open>VersionTimeline.jsx\<close>

datatype timeline_panel =
    TimelineLoading string
  | TimelineEmpty string
  | TimelineList string nat bool "version_entry list"
  | TimelineRenderFails

definition VersionTimeline ::
  "feature \<Rightarrow> version_entry list option \<Rightarrow> bool \<Rightarrow> timeline_panel" where
  "VersionTimeline f vs busy =
     (if busy then TimelineLoading (name f)
      else (case vs of
              None \<Rightarrow> TimelineEmpty (name f)
            | Some v \<Rightarrow>
                if length v = 0 then TimelineEmpty (name f)
                else TimelineList (name f) (length v) (length v > 1) v))"

section \<open>The API functions (in App.jsx)\<close>

text \<open>
  A parsed JSON value. Numbers are integers here, rendered in decimal, as JavaScript renders
  an integer of magnitude below \<open>10^21\<close>. An object is the list of its members in the order of
  the text; \<^verbatim>\<open>JSON.parse\<close> keeps the last of two members with one key.
\<close>

datatype json =
    JNull
  | JBool bool
  | JNum int
  | JStr string
  | JArr "json list"
  | JObj "(string \<times> json) list"

text \<open>
  Errors are values. \<^verbatim>\<open>Error\<close> is thrown by the code with the message it builds; \<^verbatim>\<open>TypeError\<close>
  and \<^verbatim>\<open>SyntaxError\<close> are thrown by the platform (a failed \<^verbatim>\<open>fetch\<close>, reading a property of
  \<^verbatim>\<open>null\<close>, a body that is not JSON) with a message of the platform's choosing. The two
  messages below are Chrome's; the message for a body that is not JSON depends on the body
  and comes with the response.
\<close>

datatype js_error = Error string | TypeError string | SyntaxError string

fun error_message :: "js_error \<Rightarrow> string" where
  "error_message (Error m) = m"
| "error_message (TypeError m) = m"
| "error_message (SyntaxError m) = m"

definition failed_to_fetch :: string where
  "failed_to_fetch = ''Failed to fetch''"

definition null_property_message :: string where
  "null_property_message =
     ''Cannot read properties of null (reading '' @ [CHR 0x27] @ ''detail'' @ [CHR 0x27] @ '')''"

function show_nat :: "nat \<Rightarrow> string" where
  "show_nat n =
     (if n < 10 then [''0123456789'' ! n]
      else show_nat (n div 10) @ [''0123456789'' ! (n mod 10)])"
  by pat_completeness auto
termination
  by (relation "measure id") auto

declare show_nat.simps [simp del]

definition show_int :: "int \<Rightarrow> string" where
  "show_int i = (if i < 0 then CHR ''-'' # show_nat (nat (- i)) else show_nat (nat i))"

fun join_comma :: "string list \<Rightarrow> string" where
  "join_comma [] = []"
| "join_comma [s] = s"
| "join_comma (s # t # ts) = s @ CHR '','' # join_comma (t # ts)"

text \<open>
  \<^verbatim>\<open>ToString\<close>, which \<^verbatim>\<open>new Error(x)\<close> applies to its argument: an array is its elements
  joined by commas, \<^verbatim>\<open>null\<close> elements left empty; an object is \<^verbatim>\<open>[object Object]\<close>.
\<close>

fun to_string :: "json \<Rightarrow> string" where
  "to_string JNull = ''null''"
| "to_string (JBool b) = (if b then ''true'' else ''false'')"
| "to_string (JNum i) = show_int i"
| "to_string (JStr s) = s"
| "to_string (JArr xs) = join_comma (map (\<lambda>x. if x = JNull then [] else to_string x) xs)"
| "to_string (JObj kvs) = ''[object Object]''"

text \<open>Truthiness of a value that may be \<^verbatim>\<open>undefined\<close> (\<open>None\<close>).\<close>

fun truthy :: "json option \<Rightarrow> bool" where
  "truthy None = False"
| "truthy (Some JNull) = False"
| "truthy (Some (JBool b)) = b"
| "truthy (Some (JNum i)) = (i \<noteq> 0)"
| "truthy (Some (JStr s)) = (s \<noteq> [])"
| "truthy (Some (JArr xs)) = True"
| "truthy (Some (JObj kvs)) = True"

text \<open>
  \<^verbatim>\<open>err.detail\<close>: reading the property of \<^verbatim>\<open>null\<close> throws; an object yields its member or
  \<^verbatim>\<open>undefined\<close>; every other value yields \<^verbatim>\<open>undefined\<close>.
\<close>

fun detail_of :: "json \<Rightarrow> js_error + json option" where
  "detail_of JNull = Inl (TypeError null_property_message)"
| "detail_of (JObj kvs) = Inr (map_of (rev kvs) ''detail'')"
| "detail_of j = Inr None"

text \<open>
  What \<^verbatim>\<open>fetch\<close> gives back: it rejects when no response arrives, otherwise a response with
  its status. \<^verbatim>\<open>res.ok\<close> is true for a status from 200 to 299. The code reads the body once,
  in one of two ways. \<open>json_body\<close> is what \<^verbatim>\<open>res.json()\<close> resolves to where the code looks for
  \<^verbatim>\<open>detail\<close> in it (the response is not ok); \<open>payload\<close> is what \<^verbatim>\<open>res.json()\<close> resolves to where
  the code returns it to its caller (the response is ok), as a value of the type the
  endpoint documents; a field of that value which the body leaves out or gives as \<^verbatim>\<open>null\<close>
  is \<open>None\<close> there. Each reading is \<open>None\<close> when the body is not JSON and \<^verbatim>\<open>res.json()\<close>
  rejects; \<open>not_json\<close> is the message of the \<^verbatim>\<open>SyntaxError\<close> it then rejects with.
\<close>

record 'a response =
  http_status :: nat
  json_body :: "json option"
  payload :: "'a option"
  not_json :: string

datatype 'a fetch_outcome = NetworkFailure | Received "'a response"

definition res_ok :: "'a response \<Rightarrow> bool" where
  "res_ok res = (200 \<le> http_status res \<and> http_status res \<le> 299)"

text \<open>
  The three API functions differ in the request they send and agree in what they make of the
  outcome:
  \<^verbatim>\<open>if (!res.ok) { const err = await res.json().catch(() => ({}));
                   throw new Error(err.detail || `Error ${res.status}`); }
    return res.json();\<close>
\<close>

definition api_result :: "'a fetch_outcome \<Rightarrow> js_error + 'a" where
  "api_result out =
     (case out of
        NetworkFailure \<Rightarrow> Inl (TypeError failed_to_fetch)
      | Received res \<Rightarrow>
          if \<not> res_ok res
          then (let err = (case json_body res of None \<Rightarrow> JObj [] | Some j \<Rightarrow> j)
                in case detail_of err of
                     Inl e \<Rightarrow> Inl e
                   | Inr d \<Rightarrow>
                       Inl (Error (if truthy d
                                   then (case d of Some v \<Rightarrow> to_string v | None \<Rightarrow> [])
                                   else ''Error '' @ show_nat (http_status res))))
          else (case payload res of
                  None \<Rightarrow> Inl (SyntaxError (not_json res))
                | Some v \<Rightarrow> Inr v))"

text \<open>
  \<^verbatim>\<open>data.versions\<close> and \<^verbatim>\<open>data.evolution\<close>: the list, or \<open>None\<close> when the body has no such field or
  gives it as \<^verbatim>\<open>null\<close>. A field that holds anything else is outside the model.
\<close>

record timeline_data =
  data_versions :: "version_entry list option"

record evolution_data =
  data_evolution :: "commit list option"

definition analyzeRepo :: "analysis_data fetch_outcome \<Rightarrow> js_error + analysis_data" where
  "analyzeRepo out = api_result out"

definition getFeatureTimeline :: "timeline_data fetch_outcome \<Rightarrow> js_error + timeline_data" where
  "getFeatureTimeline out = api_result out"

definition getFeatureEvolution :: "evolution_data fetch_outcome \<Rightarrow> js_error + evolution_data" where
  "getFeatureEvolution out = api_result out"

text \<open>The requests themselves, as the App issues them.\<close>

datatype api_call =
    AnalyzeRepo js_string
  | GetFeatureTimeline string feature
  | GetFeatureEvolution string feature

section \<open>App.jsx: state and handlers\<close>

datatype tab = Timeline | Evolution

text \<open>
  The nine \<^verbatim>\<open>useState\<close> cells of \<^verbatim>\<open>App\<close>. \<open>versions\<close> and \<open>evolutions\<close> are the objects keyed
  by feature id, given by their own properties: \<open>None\<close> for a key that was never written,
  \<open>Some None\<close> for a key written with \<^verbatim>\<open>undefined\<close> (a response without the field), \<open>Some (Some l)\<close>
  for a key written with the list \<open>l\<close>.

  Both objects are plain objects, made by \<^verbatim>\<open>{}\<close> and by spreading, so a read \<^verbatim>\<open>obj[key]\<close> of a key
  that is not an own property finds what every object inherits: for the twelve names below
  it is a function (for \<^verbatim>\<open>__proto__\<close> the prototype object), which is truthy, and for every
  other key it is \<^verbatim>\<open>undefined\<close>. Of the inherited functions, \<^verbatim>\<open>toString\<close>, \<^verbatim>\<open>toLocaleString\<close> and
  \<^verbatim>\<open>valueOf\<close> have \<^verbatim>\<open>length\<close> 0.
\<close>

definition object_prototype_names :: "string list" where
  "object_prototype_names =
     [''constructor'', ''toString'', ''toLocaleString'', ''valueOf'', ''hasOwnProperty'',
      ''isPrototypeOf'', ''propertyIsEnumerable'', ''__proto__'', ''__defineGetter__'',
      ''__defineSetter__'', ''__lookupGetter__'', ''__lookupSetter__'']"

definition zero_length_names :: "string list" where
  "zero_length_names = [''toString'', ''toLocaleString'', ''valueOf'']"

text \<open>Whether \<^verbatim>\<open>obj[key]\<close> is truthy. An array, empty or not, is truthy.\<close>

definition read_truthy :: "(string \<rightharpoonup> 'a list option) \<Rightarrow> string \<Rightarrow> bool" where
  "read_truthy obj k =
     (case obj k of
        Some v \<Rightarrow> v \<noteq> None
      | None \<Rightarrow> k \<in> set object_prototype_names)"

record app_state =
  loading :: bool
  error :: string
  analysis :: "analysis_data option"
  activeFeature :: "feature option"
  activeTab :: tab
  timelineLoading :: bool
  evolutionLoading :: bool
  versions :: "string \<rightharpoonup> version_entry list option"
  evolutions :: "string \<rightharpoonup> commit list option"

definition initial_state :: app_state where
  "initial_state =
     \<lparr> loading = False, error = [], analysis = None, activeFeature = None,
       activeTab = Timeline, timelineLoading = False, evolutionLoading = False,
       versions = Map.empty, evolutions = Map.empty \<rparr>"

text \<open>
  \<^verbatim>\<open>handleAnalyze\<close>, up to its \<^verbatim>\<open>await\<close>: six state writes, then the request. A handler returns
  the next state and the requests it has sent.
\<close>

definition handleAnalyze_begin :: "app_state \<Rightarrow> js_string \<Rightarrow> app_state \<times> api_call list" where
  "handleAnalyze_begin s url =
     (s\<lparr> loading := True, error := [], analysis := None, activeFeature := None,
         versions := Map.empty, evolutions := Map.empty \<rparr>,
      [AnalyzeRepo url])"

text \<open>
  \<^verbatim>\<open>handleAnalyze\<close>, from the moment \<^verbatim>\<open>analyzeRepo\<close> settles:
  \<^verbatim>\<open>setAnalysis(data)\<close>, or \<^verbatim>\<open>setError(err.message || 'Something went wrong')\<close>, and in both
  cases \<^verbatim>\<open>setLoading(false)\<close>.
\<close>

definition handleAnalyze_settle :: "app_state \<Rightarrow> js_error + analysis_data \<Rightarrow> app_state" where
  "handleAnalyze_settle s r =
     (case r of
        Inr data \<Rightarrow> s\<lparr> analysis := Some data, loading := False \<rparr>
      | Inl err \<Rightarrow>
          s\<lparr> error := (if error_message err \<noteq> [] then error_message err
                        else ''Something went wrong''),
             loading := False \<rparr>)"

text \<open>
  \<^verbatim>\<open>fetchTimeline\<close> and \<^verbatim>\<open>fetchEvolution\<close>, up to their \<^verbatim>\<open>await\<close>. The first line returns
  whenever the read of the key is truthy. Reading \<^verbatim>\<open>analysis.repo\<close>
  while \<^verbatim>\<open>analysis\<close> is \<^verbatim>\<open>null\<close> throws inside the \<^verbatim>\<open>try\<close>, so \<^verbatim>\<open>catch\<close> and \<^verbatim>\<open>finally\<close> run at once
  and no request is sent.
\<close>

definition fetchTimeline_begin :: "app_state \<Rightarrow> feature \<Rightarrow> app_state \<times> api_call list" where
  "fetchTimeline_begin s f =
     (if read_truthy (versions s) (feature_id f) then (s, [])
      else (case analysis s of
              None \<Rightarrow>
                (s\<lparr> versions := (versions s)(feature_id f \<mapsto> Some []),
                    timelineLoading := False \<rparr>, [])
            | Some a \<Rightarrow>
                (s\<lparr> timelineLoading := True \<rparr>, [GetFeatureTimeline (repo a) f])))"

definition fetchEvolution_begin :: "app_state \<Rightarrow> feature \<Rightarrow> app_state \<times> api_call list" where
  "fetchEvolution_begin s f =
     (if read_truthy (evolutions s) (feature_id f) then (s, [])
      else (case analysis s of
              None \<Rightarrow>
                (s\<lparr> evolutions := (evolutions s)(feature_id f \<mapsto> Some []),
                    evolutionLoading := False \<rparr>, [])
            | Some a \<Rightarrow>
                (s\<lparr> evolutionLoading := True \<rparr>, [GetFeatureEvolution (repo a) f])))"

text \<open>
  \<^verbatim>\<open>fetchTimeline\<close> and \<^verbatim>\<open>fetchEvolution\<close>, from the moment their request settles. The state
  is the one current at that moment: \<^verbatim>\<open>setVersions((prev) => ...)\<close> updates whatever the
  object is by then, and writes the key whether or not it is already there. A rejection is
  caught; the \<^verbatim>\<open>catch\<close> has no binding and writes the empty list.
\<close>

definition fetchTimeline_settle ::
  "app_state \<Rightarrow> feature \<Rightarrow> js_error + timeline_data \<Rightarrow> app_state" where
  "fetchTimeline_settle s f r =
     (case r of
        Inr data \<Rightarrow>
          s\<lparr> versions := (versions s)(feature_id f \<mapsto> data_versions data),
             timelineLoading := False \<rparr>
      | Inl err \<Rightarrow>
          s\<lparr> versions := (versions s)(feature_id f \<mapsto> Some []), timelineLoading := False \<rparr>)"

definition fetchEvolution_settle ::
  "app_state \<Rightarrow> feature \<Rightarrow> js_error + evolution_data \<Rightarrow> app_state" where
  "fetchEvolution_settle s f r =
     (case r of
        Inr data \<Rightarrow>
          s\<lparr> evolutions := (evolutions s)(feature_id f \<mapsto> data_evolution data),
             evolutionLoading := False \<rparr>
      | Inl err \<Rightarrow>
          s\<lparr> evolutions := (evolutions s)(feature_id f \<mapsto> Some []),
             evolutionLoading := False \<rparr>)"

definition handleSelectFeature :: "app_state \<Rightarrow> feature \<Rightarrow> app_state \<times> api_call list" where
  "handleSelectFeature s f =
     (if activeTab s = Timeline
      then fetchTimeline_begin (s\<lparr> activeFeature := Some f \<rparr>) f
      else fetchEvolution_begin (s\<lparr> activeFeature := Some f \<rparr>) f)"

definition handleTabSwitch :: "app_state \<Rightarrow> tab \<Rightarrow> app_state \<times> api_call list" where
  "handleTabSwitch s t =
     (case activeFeature s of
        None \<Rightarrow> (s\<lparr> activeTab := t \<rparr>, [])
      | Some f \<Rightarrow>
          if t = Timeline then fetchTimeline_begin (s\<lparr> activeTab := t \<rparr>) f
          else fetchEvolution_begin (s\<lparr> activeTab := t \<rparr>) f)"

text \<open>
  What \<^verbatim>\<open>App\<close> renders from its state: the error banner when \<^verbatim>\<open>error\<close> is not empty, the
  feature cards when there is an analysis, and under them, for the active feature, the panel
  of the active tab. The panel is given \<^verbatim>\<open>versions[activeFeature.id]\<close>
  (\<^verbatim>\<open>evolutions[activeFeature.id]\<close>). When that read finds an inherited function and not a list,
  the component takes its \<^verbatim>\<open>length\<close>: for length 0 it renders the empty panel, otherwise it
  goes on to call \<^verbatim>\<open>map\<close> (\<^verbatim>\<open>reduce\<close>) on it and throws; as nothing catches an error thrown
  while rendering, the page as a whole is then gone, whatever the other fields say.
\<close>

record app_view =
  view_error :: "string option"
  view_loading :: bool
  view_cards :: "card_view list option"
  view_timeline :: "timeline_panel option"
  view_evolution :: "evolution_panel option"
  view_empty_state :: bool

definition App :: "(nat \<Rightarrow> bool) \<Rightarrow> app_state \<Rightarrow> app_view" where
  "App opens s =
     \<lparr> view_error = (if error s \<noteq> [] then Some (error s) else None),
       view_loading = loading s,
       view_cards =
         (case analysis s of
            None \<Rightarrow> None
          | Some a \<Rightarrow> Some (FeatureList (features a) (map_option feature_id (activeFeature s)))),
       view_timeline =
         (case (analysis s, activeFeature s) of
            (Some a, Some f) \<Rightarrow>
              if activeTab s = Timeline
              then Some (case versions s (feature_id f) of
                           Some v \<Rightarrow>
                             VersionTimeline f v
                               (timelineLoading s \<and> \<not> read_truthy (versions s) (feature_id f))
                         | None \<Rightarrow>
                             if feature_id f \<in> set object_prototype_names
                             then (if feature_id f \<in> set zero_length_names
                                   then TimelineEmpty (name f) else TimelineRenderFails)
                             else VersionTimeline f None
                                    (timelineLoading s
                                     \<and> \<not> read_truthy (versions s) (feature_id f)))
              else None
          | _ \<Rightarrow> None),
       view_evolution =
         (case (analysis s, activeFeature s) of
            (Some a, Some f) \<Rightarrow>
              if activeTab s = Evolution
              then Some (case evolutions s (feature_id f) of
                           Some v \<Rightarrow>
                             CommitEvolution opens f v
                               (evolutionLoading s \<and> \<not> read_truthy (evolutions s) (feature_id f))
                         | None \<Rightarrow>
                             if feature_id f \<in> set object_prototype_names
                             then (if feature_id f \<in> set zero_length_names
                                   then EvolutionEmpty (name f) else EvolutionRenderFails)
                             else CommitEvolution opens f None
                                    (evolutionLoading s
                                     \<and> \<not> read_truthy (evolutions s) (feature_id f)))
              else None
          | _ \<Rightarrow> None),
       view_empty_state = (analysis s = None \<and> \<not> loading s \<and> \<not> (error s \<noteq> [])) \<rparr>"

section \<open>App.jsx: runs of the application\<close>

text \<open>
  JavaScript runs one handler at a time, each to its next \<^verbatim>\<open>await\<close>. A run of the application
  is therefore a sequence of events: the user submits the form, clicks a feature card or a
  tab, or a request that was sent settles with some outcome. \<open>calls\<close> records every request
  sent, in order; \<open>pending\<close> holds those that have not settled. Each handler sees the state as
  the events before it left it.

  An event can happen only when the page offers it: the form submits as \<open>form_submit\<close> says,
  the cards are on the page while there is an analysis and show its features, the tabs are
  on the page while in addition a feature is active, and a request settles only while it is
  pending. \<open>step\<close> is \<open>None\<close> for an event that cannot happen.
\<close>

record world =
  app :: app_state
  calls :: "api_call list"
  pending :: "api_call list"

datatype event =
    Submit js_string
  | SelectFeature feature
  | TabSwitch tab
  | AnalyzeSettled js_string "analysis_data fetch_outcome"
  | TimelineSettled string feature "timeline_data fetch_outcome"
  | EvolutionSettled string feature "evolution_data fetch_outcome"

definition issue :: "world \<Rightarrow> app_state \<times> api_call list \<Rightarrow> world" where
  "issue w r = \<lparr> app = fst r, calls = calls w @ snd r, pending = pending w @ snd r \<rparr>"

definition settle :: "world \<Rightarrow> api_call \<Rightarrow> app_state \<Rightarrow> world" where
  "settle w c s = \<lparr> app = s, calls = calls w, pending = remove1 c (pending w) \<rparr>"

fun step :: "world \<Rightarrow> event \<Rightarrow> world option" where
  "step w (Submit text) =
     (case form_submit (loading (app w)) text of
        None \<Rightarrow> None
      | Some url \<Rightarrow> Some (issue w (handleAnalyze_begin (app w) url)))"
| "step w (SelectFeature f) =
     (case analysis (app w) of
        None \<Rightarrow> None
      | Some a \<Rightarrow>
          if f \<in> set (features a) then Some (issue w (handleSelectFeature (app w) f))
          else None)"
| "step w (TabSwitch t) =
     (if analysis (app w) \<noteq> None \<and> activeFeature (app w) \<noteq> None
      then Some (issue w (handleTabSwitch (app w) t))
      else None)"
| "step w (AnalyzeSettled url out) =
     (if AnalyzeRepo url \<in> set (pending w)
      then Some (settle w (AnalyzeRepo url) (handleAnalyze_settle (app w) (analyzeRepo out)))
      else None)"
| "step w (TimelineSettled r f out) =
     (if GetFeatureTimeline r f \<in> set (pending w)
      then Some (settle w (GetFeatureTimeline r f)
                   (fetchTimeline_settle (app w) f (getFeatureTimeline out)))
      else None)"
| "step w (EvolutionSettled r f out) =
     (if GetFeatureEvolution r f \<in> set (pending w)
      then Some (settle w (GetFeatureEvolution r f)
                   (fetchEvolution_settle (app w) f (getFeatureEvolution out)))
      else None)"

fun run :: "world \<Rightarrow> event list \<Rightarrow> world option" where
  "run w [] = Some w"
| "run w (e # es) = (case step w e of None \<Rightarrow> None | Some w' \<Rightarrow> run w' es)"

definition initial_world :: world where
  "initial_world = \<lparr> app = initial_state, calls = [], pending = [] \<rparr>"

text \<open>
  For statements about runs: the requests for the evolution (the timeline) of the feature id
  \<open>k\<close>, and the events that start a new session.
\<close>

definition evolution_call_for :: "string \<Rightarrow> api_call \<Rightarrow> bool" where
  "evolution_call_for k c =
     (case c of GetFeatureEvolution r f \<Rightarrow> feature_id f = k | _ \<Rightarrow> False)"

definition timeline_call_for :: "string \<Rightarrow> api_call \<Rightarrow> bool" where
  "timeline_call_for k c =
     (case c of GetFeatureTimeline r f \<Rightarrow> feature_id f = k | _ \<Rightarrow> False)"

definition is_submit :: "event \<Rightarrow> bool" where
  "is_submit e = (case e of Submit text \<Rightarrow> True | _ \<Rightarrow> False)"

section \<open>The evolution pipeline behind the API\<close>

text \<open>
  The list that \<^verbatim>\<open>/api/feature-evolution\<close> returns is built by the backend, whose code is not
  among the sources. Its part in the order of the entries is modelled from sections 3 to 6
  of the specification.
\<close>

text \<open>Modelled from the spec: the ChangedFile of section 3 (path, status, additions count,
  deletions count); the backend's type is missing.\<close>

record file_change =
  path :: string
  change_status :: string
  added :: int
  removed :: int

text \<open>Modelled from the spec: the Commit of section 3 (identifier, author, timestamp, message,
  ordered list of changed-file records); the backend's type is missing.\<close>

record history_commit =
  commit_id :: string
  commit_author :: string
  timestamp :: int
  commit_message :: string
  changes :: "file_change list"

text \<open>Modelled from the spec: the ordering key of a Commit, its timestamp, ties broken by
  identifier (section 3); the backend's comparison is missing.\<close>

definition commit_key :: "history_commit \<Rightarrow> int \<times> string" where
  "commit_key c = (timestamp c, commit_id c)"

text \<open>Modelled from the spec: the History Store (sections 2 and 3), the commits fetched for a
  repository put in the order of their keys; the backend's loader is missing.\<close>

definition history_store :: "history_commit list \<Rightarrow> history_commit list" where
  "history_store commits = sort_key commit_key commits"

text \<open>Modelled from the spec: the Relevance Filter \<^verbatim>\<open>select\<close> (section 4.2), which goes through
  the store in ascending order and keeps a commit when one of its changed paths is, as an
  exact string, in the feature's file set; the backend's filter is missing.\<close>

definition select :: "history_commit list \<Rightarrow> string list \<Rightarrow> history_commit list" where
  "select store fileSet =
     filter (\<lambda>c. list_ex (\<lambda>ch. path ch \<in> set fileSet) (changes c)) store"

text \<open>Modelled from the spec: the result of the Diff Aggregator (section 4.3); the backend's type
  is missing.\<close>

record aggregate_result =
  perFile :: "file_change list"
  totalAdditions :: int
  totalDeletions :: int

text \<open>Modelled from the spec: the Diff Aggregator \<^verbatim>\<open>aggregate\<close> (section 4.3), which keeps the
  files of the commit that are in the file set, zero counts included, and totals their
  counts; the backend's aggregation is missing.\<close>

definition aggregate :: "history_commit \<Rightarrow> string list \<Rightarrow> aggregate_result" where
  "aggregate c fileSet =
     (let relevant = filter (\<lambda>ch. path ch \<in> set fileSet) (changes c)
      in \<lparr> perFile = relevant,
            totalAdditions = sum_list (map added relevant),
            totalDeletions = sum_list (map removed relevant) \<rparr>)"

text \<open>Modelled from the spec: the EvolutionEntry of section 3 (a commit, its totals over the
  feature's files, a narrative); the backend's type is missing.\<close>

record evolution_entry =
  entry_commit :: history_commit
  entry_stats :: aggregate_result
  narrative :: string

text \<open>Modelled from the spec: one entry of the Evolution Narrator (section 4.4). The summarizer
  is a parameter; it yields \<open>None\<close> when the call fails or times out, and the entry then
  carries the fallback narrative. The backend's narrator is missing.\<close>

definition make_entry ::
  "(history_commit \<Rightarrow> string option) \<Rightarrow> string list \<Rightarrow> history_commit \<Rightarrow> evolution_entry" where
  "make_entry summarize fileSet c =
     \<lparr> entry_commit = c,
       entry_stats = aggregate c fileSet,
       narrative = (case summarize c of None \<Rightarrow> ''summary unavailable'' | Some t \<Rightarrow> t) \<rparr>"

text \<open>Modelled from the spec: \<^verbatim>\<open>narrate\<close> under the concurrency of section 5. \<open>completion\<close> lists
  the positions of the commits in the order in which their summaries complete; the entries
  are collected in that order and re-sorted by their commits' keys before they are returned.
  The backend's narrator is missing.\<close>

definition narrate ::
  "(history_commit \<Rightarrow> string option) \<Rightarrow> nat list \<Rightarrow> string list \<Rightarrow> history_commit list
     \<Rightarrow> evolution_entry list" where
  "narrate summarize completion fileSet commits =
     sort_key (\<lambda>e. commit_key (entry_commit e))
       (map (\<lambda>i. make_entry summarize fileSet (commits ! i))
          (filter (\<lambda>i. i < length commits) completion))"

text \<open>Modelled from the spec: the answer to "evolution of feature F" (section 2), the Relevance
  Filter over the History Store followed by the narrator; the backend's endpoint is missing.\<close>

definition feature_evolution ::
  "(history_commit \<Rightarrow> string option) \<Rightarrow> nat list \<Rightarrow> history_commit list \<Rightarrow> string list
     \<Rightarrow> evolution_entry list" where
  "feature_evolution summarize completion commits fileSet =
     narrate summarize completion fileSet (select (history_store commits) fileSet)"

text \<open>Modelled from the spec: what the presentation layer receives for an entry (section 6): the
  commit identifier in short form, message, author, date, the per-file records and the
  narrative. The short form and the rendering of the date are parameters. The backend's
  serialisation is missing.\<close>

definition present ::
  "(string \<Rightarrow> string) \<Rightarrow> (int \<Rightarrow> string) \<Rightarrow> evolution_entry \<Rightarrow> commit" where
  "present short show_date e =
     \<lparr> sha = short (commit_id (entry_commit e)),
       message = commit_message (entry_commit e),
       author = commit_author (entry_commit e),
       date = show_date (timestamp (entry_commit e)),
       total_additions = Some (totalAdditions (entry_stats e)),
       total_deletions = Some (totalDeletions (entry_stats e)),
       evolution_summary = narrative e,
       files_changed =
         Some (map (\<lambda>ch. \<lparr> status = Some (change_status ch), filename = path ch,
                            additions = Some (added ch), deletions = Some (removed ch) \<rparr>)
                 (perFile (entry_stats e))) \<rparr>"

section \<open>Example inputs\<close>

definition seven_files :: feature where
  "seven_files =
     \<lparr> feature_id = ''auth'', name = ''Authentication'', description = ''Login and tokens'',
       files = [''src/auth/login.js'', ''src/auth/token.js'', ''README.md'', ''src/auth/'',
                ''a/b/c/d.py'', ''src/x.js'', ''src/y.js''] \<rparr>"

text \<open>Space, TAB, \<^verbatim>\<open>fb/r e\<close>, U+3000, LF.\<close>

definition typed_text :: js_string where
  "typed_text = [32, 9, 102, 98, 47, 114, 32, 101, 12288, 10]"

definition zero_file :: changed_file where
  "zero_file = \<lparr> status = Some ''renamed'', filename = ''src/old.js'',
                  additions = Some 0, deletions = Some 0 \<rparr>"

definition edited_file :: changed_file where
  "edited_file = \<lparr> status = Some ''modified'', filename = ''src/app.js'',
                    additions = Some 12, deletions = Some 3 \<rparr>"

definition first_commit :: commit where
  "first_commit =
     \<lparr> sha = ''a1b2c3d'', message = ''Add login'', author = ''kim'', date = ''2024-01-01'',
       total_additions = Some 12, total_deletions = Some 3,
       evolution_summary = ''Introduces the login form.'',
       files_changed = Some [zero_file, edited_file] \<rparr>"

definition second_commit :: commit where
  "second_commit =
     \<lparr> sha = ''d4e5f6a'', message = ''Rename'', author = ''sam'', date = ''2024-02-01'',
       total_additions = None, total_deletions = Some 0,
       evolution_summary = ''Moves a file.'',
       files_changed = None \<rparr>"

definition third_commit :: commit where
  "third_commit =
     \<lparr> sha = ''0718293'', message = ''Fix token refresh'', author = ''kim'',
       date = ''2024-03-01'',
       total_additions = Some 30, total_deletions = Some 4,
       evolution_summary = ''Refreshes tokens before they expire.'',
       files_changed = Some [edited_file] \<rparr>"

text \<open>The list panel's contents, when the panel is the list.\<close>

definition list_view :: "evolution_panel \<Rightarrow> evolution_view option" where
  "list_view p = (case p of EvolutionList n v \<Rightarrow> Some v | _ \<Rightarrow> None)"

definition shop_analysis :: analysis_data where
  "shop_analysis = \<lparr> repo = ''acme/shop'', features = [seven_files] \<rparr>"

definition blog_feature :: feature where
  "blog_feature =
     \<lparr> feature_id = ''auth'', name = ''Authorization'', description = ''Roles'',
       files = [''blog/roles.py''] \<rparr>"

definition blog_analysis :: analysis_data where
  "blog_analysis = \<lparr> repo = ''acme/blog'', features = [blog_feature] \<rparr>"

text \<open>
  Outcomes of requests. A response gives the reading of its body that the code makes for its
  status and leaves the other one \<open>None\<close>.
\<close>

definition ok_response :: "'a \<Rightarrow> 'a fetch_outcome" where
  "ok_response v =
     Received \<lparr> http_status = 200, json_body = None, payload = Some v, not_json = [] \<rparr>"

definition rate_limited_response :: "'a response" where
  "rate_limited_response =
     \<lparr> http_status = 500,
       json_body = Some (JObj [(''detail'', JStr ''GitHub rate limit exceeded'')]),
       payload = None, not_json = [] \<rparr>"

definition rate_limited :: "'a fetch_outcome" where
  "rate_limited = Received rate_limited_response"

definition empty_detail_response :: "'a response" where
  "empty_detail_response =
     \<lparr> http_status = 500, json_body = Some (JObj [(''detail'', JStr [])]), payload = None,
       not_json = [] \<rparr>"

definition bad_gateway_response :: "'a response" where
  "bad_gateway_response =
     \<lparr> http_status = 502, json_body = None, payload = None,
       not_json = ''Unexpected token < in JSON at position 0'' \<rparr>"

text \<open>The text \<^verbatim>\<open>fb/r e\<close>, which is \<open>typed_text\<close> trimmed, and the text \<^verbatim>\<open>a/b\<close>.\<close>

definition shop_url :: js_string where
  "shop_url = [102, 98, 47, 114, 32, 101]"

definition blog_url :: js_string where
  "blog_url = [97, 47, 98]"

definition loaded_state :: app_state where
  "loaded_state = initial_state\<lparr> analysis := Some shop_analysis, activeTab := Evolution \<rparr>"

definition browsing_state :: app_state where
  "browsing_state =
     loaded_state\<lparr> activeFeature := Some seven_files,
                   evolutions := [''auth'' \<mapsto> Some [first_commit]],
                   versions := [''auth'' \<mapsto> Some []] \<rparr>"

definition selected_state :: app_state where
  "selected_state = loaded_state\<lparr> activeFeature := Some seven_files \<rparr>"

definition browsing_world :: world where
  "browsing_world = \<lparr> app = browsing_state, calls = [], pending = [] \<rparr>"

definition browsing_clicks :: "event list" where
  "browsing_clicks =
     [SelectFeature seven_files, TabSwitch Timeline, TabSwitch Evolution,
      SelectFeature seven_files, TabSwitch Timeline]"


text \<open>
  The scenario of section 8 of the specification, the commits in the order the hosting API
  might list them: \<open>c1\<close> (day 1) touches \<^verbatim>\<open>a.js\<close>, \<open>c2\<close> (day 2) touches \<^verbatim>\<open>b.js\<close>, \<open>c3\<close> (day 3)
  touches both. The summarizer fails for \<open>c3\<close>.
\<close>

definition scenario_commits :: "history_commit list" where
  "scenario_commits =
     [\<lparr> commit_id = ''c3'', commit_author = ''kim'', timestamp = 3,
        commit_message = ''Both'',
        changes = [\<lparr> path = ''a.js'', change_status = ''modified'', added = 4, removed = 1 \<rparr>,
                   \<lparr> path = ''b.js'', change_status = ''modified'', added = 50, removed = 9 \<rparr>] \<rparr>,
      \<lparr> commit_id = ''c1'', commit_author = ''kim'', timestamp = 1,
        commit_message = ''Start'',
        changes = [\<lparr> path = ''a.js'', change_status = ''added'', added = 10, removed = 0 \<rparr>] \<rparr>,
      \<lparr> commit_id = ''c2'', commit_author = ''sam'', timestamp = 2,
        commit_message = ''Other'',
        changes = [\<lparr> path = ''b.js'', change_status = ''added'', added = 7, removed = 0 \<rparr>] \<rparr>]"

definition scenario_summarizer :: "history_commit \<Rightarrow> string option" where
  "scenario_summarizer c = (if commit_id c = ''c3'' then None else Some ''Creates the module.'')"

section \<open>Properties\<close>

subsection \<open>FeatureCard\<close>

lemma split_on_nonempty: "split_on sep s \<noteq> []"
  by (induction s) (auto split: list.splits)

lemma pop_last: "xs \<noteq> [] \<Longrightarrow> pop xs = Some (last xs)"
  by (induction xs rule: pop.induct) auto

lemma takeWhile_snoc_sep:
  "takeWhile (\<lambda>c. c \<noteq> sep) (xs @ [sep]) = takeWhile (\<lambda>c. c \<noteq> sep) xs"
  by (induction xs) auto

lemma takeWhile_snoc_other:
  "c \<noteq> sep \<Longrightarrow>
   takeWhile (\<lambda>c. c \<noteq> sep) (xs @ [c]) =
     (if sep \<in> set xs then takeWhile (\<lambda>c. c \<noteq> sep) xs else xs @ [c])"
  by (induction xs) auto

lemma split_on_no_sep: "sep \<notin> set s \<Longrightarrow> split_on sep s = [s]"
  by (induction s) auto

lemma split_on_two: "sep \<in> set s \<Longrightarrow> \<exists>p q qs. split_on sep s = p # q # qs"
proof (induction s)
  case Nil
  then show ?case by simp
next
  case (Cons c cs)
  show ?case
  proof (cases "c = sep")
    case True
    then show ?thesis
      using split_on_nonempty [of sep cs] by (cases "split_on sep cs") auto
  next
    case False
    with Cons.prems have "sep \<in> set cs" by simp
    from Cons.IH [OF this] False show ?thesis by auto
  qed
qed

lemma last_split_on:
  "last (split_on sep s) = rev (takeWhile (\<lambda>c. c \<noteq> sep) (rev s))"
proof (induction s)
  case Nil
  then show ?case by simp
next
  case (Cons c cs)
  show ?case
  proof (cases "c = sep")
    case True
    with Cons show ?thesis
      by (simp add: split_on_nonempty takeWhile_snoc_sep)
  next
    case False
    show ?thesis
    proof (cases "sep \<in> set cs")
      case True
      from split_on_two [OF True] obtain p q qs where "split_on sep cs = p # q # qs"
        by blast
      with Cons False True show ?thesis
        by (simp add: takeWhile_snoc_other)
    next
      case no: False
      with False show ?thesis
        by (simp add: split_on_no_sep takeWhile_snoc_other)
    qed
  qed
qed

lemma basename_eq:
  "rendered_text (pop (split_on sep p)) = rev (takeWhile (\<lambda>c. c \<noteq> sep) (rev p))"
  by (simp add: pop_last split_on_nonempty last_split_on rendered_text_def)

text \<open>
  Claim C10. The files section of a card is absent for a feature without files; for up to
  five files it holds one badge per file, in order, each showing what follows the last
  \<^verbatim>\<open>/\<close> of the path (the whole path when it has none); for \<open>n > 5\<close> files it holds the badges
  of the first five and then one \<^verbatim>\<open>+k more\<close> badge with \<open>k = n - 5\<close>. In every case at most five
  badges are file names.
\<close>

theorem FeatureCard_file_badges:
  "card_files (FeatureCard f a) =
     (if length (files f) = 0 then None
      else if length (files f) \<le> 5
      then Some (map (\<lambda>p. FileName (rev (takeWhile (\<lambda>c. c \<noteq> CHR ''/'') (rev p)))) (files f))
      else Some (map (\<lambda>p. FileName (rev (takeWhile (\<lambda>c. c \<noteq> CHR ''/'') (rev p))))
                   (take 5 (files f))
                 @ [More (length (files f) - 5)]))
   \<and> (case card_files (FeatureCard f a) of
        None \<Rightarrow> True
      | Some bs \<Rightarrow>
          length (filter (\<lambda>b. case b of FileName p \<Rightarrow> True | More k \<Rightarrow> False) bs) \<le> 5)"
  by (simp add: FeatureCard_def basename_eq filter_map comp_def)

theorem FeatureCard_file_badges_witness:
  "card_files (FeatureCard seven_files True) =
     Some [FileName ''login.js'', FileName ''token.js'', FileName ''README.md'', FileName '''',
           FileName ''d.py'', More 2]"
  using FeatureCard_file_badges [of seven_files True]
  by (simp add: seven_files_def)

subsection \<open>RepoInput\<close>

lemma dropWhile_rev_nil:
  "dropWhile P (rev (dropWhile P s)) = [] \<longleftrightarrow> (\<forall>c\<in>set s. P c)"
proof
  assume a: "dropWhile P (rev (dropWhile P s)) = []"
  show "\<forall>c\<in>set s. P c"
  proof (rule ccontr)
    assume "\<not> (\<forall>c\<in>set s. P c)"
    then have ne: "dropWhile P s \<noteq> []" by (simp add: dropWhile_eq_Nil_conv)
    then have "\<not> P (hd (dropWhile P s))" by (rule hd_dropWhile)
    moreover have "hd (dropWhile P s) \<in> set (rev (dropWhile P s))" using ne by simp
    ultimately show False using a by (auto simp: dropWhile_eq_Nil_conv)
  qed
next
  assume "\<forall>c\<in>set s. P c"
  then have "dropWhile P s = []" by (simp add: dropWhile_eq_Nil_conv)
  then show "dropWhile P (rev (dropWhile P s)) = []"
    by (simp only: rev.simps dropWhile.simps)
qed

lemma trim_empty_iff: "trim url = [] \<longleftrightarrow> (\<forall>c\<in>set url. is_white_space c)"
  unfolding trim_def by (simp only: rev_is_Nil_conv dropWhile_rev_nil)

lemma trim_decompose:
  "\<exists>pre suf. url = pre @ trim url @ suf
     \<and> (\<forall>c\<in>set pre. is_white_space c) \<and> (\<forall>c\<in>set suf. is_white_space c)"
proof -
  define m where "m = dropWhile is_white_space url"
  have 1: "url = takeWhile is_white_space url @ m"
    by (simp add: m_def)
  have "rev (takeWhile is_white_space (rev m) @ dropWhile is_white_space (rev m)) = m"
    by (simp only: takeWhile_dropWhile_id rev_rev_ident)
  then have "rev (dropWhile is_white_space (rev m)) @ rev (takeWhile is_white_space (rev m)) = m"
    by (simp only: rev_append)
  then have 2: "m = trim url @ rev (takeWhile is_white_space (rev m))"
    unfolding trim_def m_def by (rule sym)
  have 3: "\<forall>c\<in>set (takeWhile is_white_space url). is_white_space c"
    by (auto dest: set_takeWhileD)
  have 4: "\<forall>c\<in>set (rev (takeWhile is_white_space (rev m))). is_white_space c"
    by (auto dest: set_takeWhileD)
  from 1 2 have "url = takeWhile is_white_space url @ trim url @ rev (takeWhile is_white_space (rev m))"
    by simp
  with 3 4 show ?thesis by blast
qed

lemma last_dropWhile: "dropWhile P xs \<noteq> [] \<Longrightarrow> last (dropWhile P xs) = last xs"
  by (induction xs) (auto split: if_splits)

lemma trim_ends:
  assumes "trim url \<noteq> []"
  shows "\<not> is_white_space (hd (trim url)) \<and> \<not> is_white_space (last (trim url))"
proof -
  define m where "m = dropWhile is_white_space url"
  define r where "r = dropWhile is_white_space (rev m)"
  have t: "trim url = rev r" by (simp add: trim_def r_def m_def)
  with assms have rne: "r \<noteq> []" by simp
  then have mne: "m \<noteq> []" by (auto simp: r_def)
  have "\<not> is_white_space (hd r)" using rne unfolding r_def by (rule hd_dropWhile)
  then have l: "\<not> is_white_space (last (trim url))" using rne by (simp add: t last_rev)
  have "last r = last (rev m)" using rne unfolding r_def by (rule last_dropWhile)
  then have "hd (trim url) = hd m" using rne mne by (simp add: t hd_rev last_rev)
  moreover have "\<not> is_white_space (hd m)" using mne unfolding m_def by (rule hd_dropWhile)
  ultimately show ?thesis using l by simp
qed

text \<open>
  Claim C9. Submitting the form calls \<^verbatim>\<open>onAnalyze\<close> exactly when \<^verbatim>\<open>loading\<close> is false and the
  text has a code unit that is not white space, and then with the trimmed text; the button
  is disabled exactly when \<^verbatim>\<open>loading\<close> is true or the text is empty or all white space. The
  trimmed text is the text without a white-space prefix and a white-space suffix, and when
  it is not empty it neither starts nor ends with white space.
\<close>

theorem RepoInput_submit:
  "form_submit busy url =
     (if \<not> busy \<and> (\<exists>c\<in>set url. \<not> is_white_space c) then Some (trim url) else None)
   \<and> button_disabled (RepoInput busy url) = (busy \<or> (\<forall>c\<in>set url. is_white_space c))
   \<and> (\<exists>pre suf. url = pre @ trim url @ suf
         \<and> (\<forall>c\<in>set pre. is_white_space c) \<and> (\<forall>c\<in>set suf. is_white_space c))
   \<and> (trim url \<noteq> [] \<longrightarrow>
         \<not> is_white_space (hd (trim url)) \<and> \<not> is_white_space (last (trim url)))"
proof -
  have a: "form_submit busy url =
     (if \<not> busy \<and> (\<exists>c\<in>set url. \<not> is_white_space c) then Some (trim url) else None)"
    using trim_empty_iff [of url]
    by (auto simp: form_submit_def RepoInput_def handleSubmit_def)
  have b: "button_disabled (RepoInput busy url) = (busy \<or> (\<forall>c\<in>set url. is_white_space c))"
    using trim_empty_iff [of url] by (simp add: RepoInput_def)
  from a b trim_decompose [of url] trim_ends [of url] show ?thesis by blast
qed

theorem RepoInput_submit_witness:
  "form_submit False typed_text = Some [102, 98, 47, 114, 32, 101]
   \<and> form_submit True typed_text = None
   \<and> form_submit False [32, 160, 10] = None
   \<and> button_disabled (RepoInput False [32, 160, 10])
   \<and> \<not> button_disabled (RepoInput False typed_text)
   \<and> trim typed_text \<noteq> []
   \<and> \<not> is_white_space (hd (trim typed_text))
   \<and> \<not> is_white_space (last (trim typed_text))"
  using RepoInput_submit [of False typed_text] RepoInput_submit [of True typed_text]
    RepoInput_submit [of False "[32, 160, 10]"]
  by (simp add: typed_text_def trim_def is_white_space_def)

subsection \<open>CommitEvolution\<close>

lemma excess_bits_small: "a < 2 ^ 53 \<Longrightarrow> excess_bits a = 0"
  by (simp add: excess_bits.simps)

lemma excess_bits_limit: "excess_bits 9007199254740992 = 1"
  by (simp add: excess_bits.simps [of 9007199254740992] excess_bits_small)

lemma excess_bits_past_limit: "excess_bits 9007199254740993 = 1"
  by (simp add: excess_bits.simps [of 9007199254740993] excess_bits_small)

lemma round_double_exact:
  assumes "\<bar>x\<bar> \<le> 2 ^ 53"
  shows "round_double x = x"
proof (cases "\<bar>x\<bar> < 2 ^ 53")
  case True
  then have "nat \<bar>x\<bar> < 2 ^ 53"
    by (simp add: nat_less_iff)
  then have "excess_bits (nat \<bar>x\<bar>) = 0"
    by (rule excess_bits_small)
  then show ?thesis
    by (simp add: round_double_def Let_def mult_sgn_abs)
next
  case False
  with assms have e: "\<bar>x\<bar> = 2 ^ 53" by simp
  then have n: "nat \<bar>x\<bar> = 2 ^ 53" by simp
  have "sgn x * \<bar>x\<bar> = x" by (rule mult_sgn_abs)
  then have "sgn x * 2 ^ 53 = x" by (simp only: e)
  then show ?thesis
    by (simp add: round_double_def Let_def n excess_bits_limit)
qed

lemma js_add_exact: "\<bar>a + b\<bar> \<le> 2 ^ 53 \<Longrightarrow> js_add a b = a + b"
  by (simp add: js_add_def round_double_exact)

lemma js_add_rounds: "js_add (2 ^ 53) 1 = 2 ^ 53"
  by (simp add: js_add_def round_double_def Let_def excess_bits_past_limit)

lemma foldl_js_add:
  "\<bar>a\<bar> + (\<Sum>c\<leftarrow>xs. \<bar>g c\<bar>) \<le> 2 ^ 53 \<Longrightarrow>
   foldl (\<lambda>s c. js_add s (g c)) a xs = a + sum_list (map g xs)"
proof (induction xs arbitrary: a)
  case Nil
  then show ?case by simp
next
  case (Cons x xs)
  have nonneg: "0 \<le> (\<Sum>c\<leftarrow>xs. \<bar>g c\<bar>)"
    by (rule sum_list_nonneg) auto
  from Cons.prems nonneg have "\<bar>a + g x\<bar> \<le> 2 ^ 53" by simp
  then have step: "js_add a (g x) = a + g x" by (rule js_add_exact)
  from Cons.prems have "\<bar>a + g x\<bar> + (\<Sum>c\<leftarrow>xs. \<bar>g c\<bar>) \<le> 2 ^ 53" by simp
  from Cons.IH [OF this] step show ?case by simp
qed

lemma or_zero_eq: "or_zero x = (case x of None \<Rightarrow> 0 | Some n \<Rightarrow> n)"
  by (simp add: or_zero_def split: option.splits)

text \<open>
  Claim C2. For a non-empty list, rendered when not loading, the panel is the list panel and
  its totals are: the number of commits is the length of the list, the additions are the sum
  of \<^verbatim>\<open>total_additions\<close> over the entries and the deletions the sum of \<^verbatim>\<open>total_deletions\<close>, a
  missing field counting as 0. This holds as long as the absolute values of the counts add up
  to at most \<open>2^53\<close>, so that no addition is rounded; \<open>js_add_rounds\<close> above is a sum past that
  bound.
\<close>

theorem CommitEvolution_totals:
  assumes "ev \<noteq> []"
    and "(\<Sum>c\<leftarrow>ev. \<bar>case total_additions c of None \<Rightarrow> 0 | Some n \<Rightarrow> n\<bar>) \<le> 2 ^ 53"
    and "(\<Sum>c\<leftarrow>ev. \<bar>case total_deletions c of None \<Rightarrow> 0 | Some n \<Rightarrow> n\<bar>) \<le> 2 ^ 53"
  shows "CommitEvolution opens f (Some ev) False =
           EvolutionList (name f)
             \<lparr> totalCommits = length ev,
               commits_plural = (1 < length ev),
               totalAdds = (\<Sum>c\<leftarrow>ev. case total_additions c of None \<Rightarrow> 0 | Some n \<Rightarrow> n),
               totalDels = (\<Sum>c\<leftarrow>ev. case total_deletions c of None \<Rightarrow> 0 | Some n \<Rightarrow> n),
               rows = map (\<lambda>(i, c). CommitRow (opens i) c) (enumerate 0 ev) \<rparr>"
proof -
  have a: "foldl (\<lambda>s c. js_add s (or_zero (total_additions c))) 0 ev
             = (\<Sum>c\<leftarrow>ev. case total_additions c of None \<Rightarrow> 0 | Some n \<Rightarrow> n)"
    using assms(2)
      foldl_js_add [where a = 0 and xs = ev
        and g = "\<lambda>c. case total_additions c of None \<Rightarrow> 0 | Some n \<Rightarrow> n"]
    by (simp add: or_zero_eq)
  have d: "foldl (\<lambda>s c. js_add s (or_zero (total_deletions c))) 0 ev
             = (\<Sum>c\<leftarrow>ev. case total_deletions c of None \<Rightarrow> 0 | Some n \<Rightarrow> n)"
    using assms(3)
      foldl_js_add [where a = 0 and xs = ev
        and g = "\<lambda>c. case total_deletions c of None \<Rightarrow> 0 | Some n \<Rightarrow> n"]
    by (simp add: or_zero_eq)
  from assms(1) show ?thesis
    by (simp add: CommitEvolution_def a d)
qed

theorem CommitEvolution_totals_witness:
  "[first_commit, second_commit, third_commit] \<noteq> []
   \<and> (\<Sum>c\<leftarrow>[first_commit, second_commit, third_commit].
         \<bar>case total_additions c of None \<Rightarrow> 0 | Some n \<Rightarrow> n\<bar>) \<le> 2 ^ 53
   \<and> (\<Sum>c\<leftarrow>[first_commit, second_commit, third_commit].
         \<bar>case total_deletions c of None \<Rightarrow> 0 | Some n \<Rightarrow> n\<bar>) \<le> 2 ^ 53
   \<and> map_option totalCommits
       (list_view (CommitEvolution (\<lambda>i. False) seven_files
                     (Some [first_commit, second_commit, third_commit]) False)) = Some 3
   \<and> map_option totalAdds
       (list_view (CommitEvolution (\<lambda>i. False) seven_files
                     (Some [first_commit, second_commit, third_commit]) False)) = Some 42
   \<and> map_option totalDels
       (list_view (CommitEvolution (\<lambda>i. False) seven_files
                     (Some [first_commit, second_commit, third_commit]) False)) = Some 7"
proof -
  have b: "(\<Sum>c\<leftarrow>[first_commit, second_commit, third_commit].
         \<bar>case total_additions c of None \<Rightarrow> 0 | Some n \<Rightarrow> n\<bar>) \<le> 2 ^ 53"
    "(\<Sum>c\<leftarrow>[first_commit, second_commit, third_commit].
         \<bar>case total_deletions c of None \<Rightarrow> 0 | Some n \<Rightarrow> n\<bar>) \<le> 2 ^ 53"
    by (simp_all add: first_commit_def second_commit_def third_commit_def)
  have n: "[first_commit, second_commit, third_commit] \<noteq> []" by simp
  from CommitEvolution_totals [OF n b, of "\<lambda>i. False" seven_files] b show ?thesis
    by (simp add: list_view_def first_commit_def second_commit_def third_commit_def)
qed

text \<open>
  Claim C5. The expanded row of a commit shows one file row per changed file, in order, none
  left out. A file with zero additions and zero deletions shows exactly the \<^verbatim>\<open>0\<close> badge; a
  file with additions (deletions) above zero shows that count and not the \<^verbatim>\<open>0\<close> badge.
\<close>

theorem FileStat_rows:
  assumes "files_changed c = Some fs" and "fs \<noteq> []"
  shows "map_option file_rows (Option.bind (detail (CommitRow True c)) file_list)
           = Some (map FileStat fs)
         \<and> row_name (FileStat file) = filename file
         \<and> (additions file = Some 0 \<and> deletions file = Some 0 \<longrightarrow>
              row_stats (FileStat file) = [StatNone])
         \<and> (\<forall>a. additions file = Some a \<and> a > 0 \<longrightarrow>
              StatAdd a \<in> set (row_stats (FileStat file))
              \<and> StatNone \<notin> set (row_stats (FileStat file)))
         \<and> (\<forall>d. deletions file = Some d \<and> d > 0 \<longrightarrow>
              StatDel d \<in> set (row_stats (FileStat file))
              \<and> StatNone \<notin> set (row_stats (FileStat file)))"
proof -
  from assms
  have "map_option file_rows (Option.bind (detail (CommitRow True c)) file_list)
          = Some (map FileStat fs)"
    by (simp add: CommitRow_def Let_def)
  moreover have "row_name (FileStat file) = filename file"
    by (simp add: FileStat_def)
  moreover have "additions file = Some 0 \<and> deletions file = Some 0 \<longrightarrow>
              row_stats (FileStat file) = [StatNone]"
    by (simp add: FileStat_def)
  moreover have "\<forall>a. additions file = Some a \<and> a > 0 \<longrightarrow>
              StatAdd a \<in> set (row_stats (FileStat file))
              \<and> StatNone \<notin> set (row_stats (FileStat file))"
    by (auto simp: FileStat_def split: option.splits)
  moreover have "\<forall>d. deletions file = Some d \<and> d > 0 \<longrightarrow>
              StatDel d \<in> set (row_stats (FileStat file))
              \<and> StatNone \<notin> set (row_stats (FileStat file))"
    by (auto simp: FileStat_def split: option.splits)
  ultimately show ?thesis by blast
qed

theorem FileStat_rows_witness:
  "files_changed first_commit = Some [zero_file, edited_file]
   \<and> [zero_file, edited_file] \<noteq> []
   \<and> map_option file_rows (Option.bind (detail (CommitRow True first_commit)) file_list)
       = Some [\<lparr> row_name = ''src/old.js'', row_stats = [StatNone] \<rparr>,
               \<lparr> row_name = ''src/app.js'', row_stats = [StatAdd 12, StatDel 3] \<rparr>]
   \<and> row_stats (FileStat zero_file) = [StatNone]
   \<and> row_stats (FileStat edited_file) = [StatAdd 12, StatDel 3]"
  using FileStat_rows [of first_commit "[zero_file, edited_file]" zero_file]
    FileStat_rows [of first_commit "[zero_file, edited_file]" edited_file]
  by (simp add: first_commit_def zero_file_def edited_file_def FileStat_def)

subsection \<open>The API functions\<close>

lemma show_nat_500: "show_nat 500 = ''500''"
  by code_simp

lemma show_nat_502: "show_nat 502 = ''502''"
  by code_simp

text \<open>
  Claim C7, as amended. For a response that is not ok: when the body is an object whose
  \<^verbatim>\<open>detail\<close> is a non-empty string, \<^verbatim>\<open>analyzeRepo\<close> throws an \<^verbatim>\<open>Error\<close> with that string as its
  message; when the body is an object whose \<^verbatim>\<open>detail\<close> is missing or falsy (the empty string
  among others), or is not JSON, or is a JSON value that is neither an object nor \<^verbatim>\<open>null\<close>, the
  message is \<^verbatim>\<open>Error\<close>, a space and the status in decimal. Whenever \<^verbatim>\<open>analyzeRepo\<close> throws an
  \<^verbatim>\<open>Error\<close> with message \<open>m\<close>, \<^verbatim>\<open>handleAnalyze\<close> ends with \<open>m\<close> as the error shown, or with
  \<^verbatim>\<open>Something went wrong\<close> when \<open>m\<close> is empty, with no analysis and with \<^verbatim>\<open>loading\<close> false.
\<close>

theorem analyze_error_message:
  assumes "\<not> res_ok res"
  shows "(json_body res = Some (JObj kvs) \<and> map_of (rev kvs) ''detail'' = Some (JStr m)
            \<and> m \<noteq> [] \<longrightarrow>
          analyzeRepo (Received res) = Inl (Error m))
         \<and> (json_body res = Some (JObj kvs) \<and> \<not> truthy (map_of (rev kvs) ''detail'') \<longrightarrow>
          analyzeRepo (Received res) = Inl (Error (''Error '' @ show_nat (http_status res))))
         \<and> (json_body res \<noteq> Some JNull \<and> (\<forall>ms. json_body res \<noteq> Some (JObj ms)) \<longrightarrow>
          analyzeRepo (Received res) = Inl (Error (''Error '' @ show_nat (http_status res))))
         \<and> (analyzeRepo (Received res) = Inl (Error m) \<longrightarrow>
          error (handleAnalyze_settle (fst (handleAnalyze_begin s url))
                   (analyzeRepo (Received res)))
            = (if m \<noteq> [] then m else ''Something went wrong'')
          \<and> view_error (App opens (handleAnalyze_settle (fst (handleAnalyze_begin s url))
                   (analyzeRepo (Received res))))
            = Some (if m \<noteq> [] then m else ''Something went wrong'')
          \<and> analysis (handleAnalyze_settle (fst (handleAnalyze_begin s url))
                   (analyzeRepo (Received res))) = None
          \<and> loading (handleAnalyze_settle (fst (handleAnalyze_begin s url))
                   (analyzeRepo (Received res))) = False)"
proof -
  have a: "analyzeRepo (Received res) = Inl (Error m)"
    if "json_body res = Some (JObj kvs)" and "map_of (rev kvs) ''detail'' = Some (JStr m)"
      and "m \<noteq> []"
    using assms that by (simp add: analyzeRepo_def api_result_def)
  have b: "analyzeRepo (Received res) = Inl (Error (''Error '' @ show_nat (http_status res)))"
    if "json_body res = Some (JObj kvs)" and "\<not> truthy (map_of (rev kvs) ''detail'')"
    using assms that by (simp add: analyzeRepo_def api_result_def)
  have c: "analyzeRepo (Received res) = Inl (Error (''Error '' @ show_nat (http_status res)))"
    if "json_body res \<noteq> Some JNull" and "\<forall>ms. json_body res \<noteq> Some (JObj ms)"
  proof (cases "json_body res")
    case None
    with assms show ?thesis by (simp add: analyzeRepo_def api_result_def)
  next
    case (Some j)
    with that have "j \<noteq> JNull" and "\<forall>ms. j \<noteq> JObj ms" by auto
    then have "detail_of j = Inr None" by (cases j) auto
    with assms Some show ?thesis by (simp add: analyzeRepo_def api_result_def)
  qed
  have d: "error (handleAnalyze_settle (fst (handleAnalyze_begin s url))
                   (analyzeRepo (Received res)))
            = (if m \<noteq> [] then m else ''Something went wrong'')
          \<and> view_error (App opens (handleAnalyze_settle (fst (handleAnalyze_begin s url))
                   (analyzeRepo (Received res))))
            = Some (if m \<noteq> [] then m else ''Something went wrong'')
          \<and> analysis (handleAnalyze_settle (fst (handleAnalyze_begin s url))
                   (analyzeRepo (Received res))) = None
          \<and> loading (handleAnalyze_settle (fst (handleAnalyze_begin s url))
                   (analyzeRepo (Received res))) = False"
    if "analyzeRepo (Received res) = Inl (Error m)"
    by (simp add: that handleAnalyze_settle_def handleAnalyze_begin_def App_def)
  from a b c d show ?thesis by blast
qed

theorem analyze_error_message_witness:
  "\<not> res_ok (rate_limited_response :: analysis_data response)
   \<and> \<not> res_ok (bad_gateway_response :: analysis_data response)
   \<and> \<not> res_ok (empty_detail_response :: analysis_data response)
   \<and> analyzeRepo (Received rate_limited_response) = Inl (Error ''GitHub rate limit exceeded'')
   \<and> analyzeRepo (Received bad_gateway_response) = Inl (Error ''Error 502'')
   \<and> analyzeRepo (Received empty_detail_response) = Inl (Error ''Error 500'')
   \<and> error (handleAnalyze_settle (fst (handleAnalyze_begin browsing_state blog_url))
              (analyzeRepo (Received rate_limited_response)))
       = ''GitHub rate limit exceeded''
   \<and> view_error (App (\<lambda>i. False)
        (handleAnalyze_settle (fst (handleAnalyze_begin browsing_state blog_url))
              (analyzeRepo (Received bad_gateway_response))))
       = Some ''Error 502''
   \<and> analysis (handleAnalyze_settle (fst (handleAnalyze_begin browsing_state blog_url))
              (analyzeRepo (Received rate_limited_response))) = None"
proof -
  have a: "\<not> res_ok (rate_limited_response :: analysis_data response)"
    and b: "\<not> res_ok (bad_gateway_response :: analysis_data response)"
    and c: "\<not> res_ok (empty_detail_response :: analysis_data response)"
    by (simp_all add: res_ok_def rate_limited_response_def bad_gateway_response_def
        empty_detail_response_def)
  show ?thesis
    using a b c show_nat_502 show_nat_500
      analyze_error_message [OF a, of "[(''detail'', JStr ''GitHub rate limit exceeded'')]"
        "''GitHub rate limit exceeded''" browsing_state blog_url "\<lambda>i. False"]
      analyze_error_message [OF b, of "[]" "''Error 502''" browsing_state blog_url "\<lambda>i. False"]
      analyze_error_message [OF c, of "[(''detail'', JStr [])]" "''Error 500''" browsing_state
        blog_url "\<lambda>i. False"]
    by (simp add: rate_limited_response_def bad_gateway_response_def empty_detail_response_def)
qed

text \<open>
  Claim C7 as stated fails for a response with status 500 and body \<^verbatim>\<open>{"detail": ""}\<close>: the
  field is present and is the empty string, yet the message thrown and shown is
  \<^verbatim>\<open>Error 500\<close>, neither the field nor \<^verbatim>\<open>Something went wrong\<close>.
\<close>

theorem empty_detail_counterexample:
  "map_option detail_of (json_body (empty_detail_response :: analysis_data response))
     = Some (Inr (Some (JStr [])))
   \<and> analyzeRepo (Received empty_detail_response) = Inl (Error ''Error 500'')
   \<and> error (handleAnalyze_settle (fst (handleAnalyze_begin initial_state shop_url))
              (analyzeRepo (Received empty_detail_response))) = ''Error 500''"
  by (simp add: analyzeRepo_def api_result_def empty_detail_response_def res_ok_def
      show_nat_500 handleAnalyze_settle_def handleAnalyze_begin_def)

subsection \<open>The handlers of App\<close>

lemmas run_defs = initial_world_def initial_state_def issue_def settle_def
  form_submit_def RepoInput_def handleSubmit_def trim_def is_white_space_def
  handleAnalyze_begin_def handleAnalyze_settle_def
  fetchTimeline_begin_def fetchEvolution_begin_def fetchTimeline_settle_def
  fetchEvolution_settle_def handleSelectFeature_def handleTabSwitch_def
  analyzeRepo_def getFeatureTimeline_def getFeatureEvolution_def api_result_def res_ok_def
  ok_response_def rate_limited_def rate_limited_response_def typed_text_def shop_url_def
  blog_url_def shop_analysis_def blog_analysis_def read_truthy_def object_prototype_names_def

text \<open>
  Claim C1, as amended. When a feature-evolution (feature-timeline) request resolves, what
  it delivered is stored for the feature, and with that feature active and its tab open the
  page renders it: for a non-empty list, one row per entry, in order. When the request
  rejects, \<^verbatim>\<open>fetchEvolution\<close> (\<^verbatim>\<open>fetchTimeline\<close>) stores the empty list for the feature and
  leaves the error state and the error banner as they were; with the feature active and its
  tab open, the page then shows the panel that says no evolution (no version history) could
  be determined.
\<close>

theorem settled_request_stored_and_rendered:
  "evolutions (fetchEvolution_settle s f (Inr d)) (feature_id f) = Some (data_evolution d)
   \<and> evolutions (fetchEvolution_settle s f (Inl e)) (feature_id f) = Some (Some [])
   \<and> error (fetchEvolution_settle s f r) = error s
   \<and> view_error (App opens (fetchEvolution_settle s f r)) = view_error (App opens s)
   \<and> (analysis s \<noteq> None \<and> activeFeature s = Some f \<and> activeTab s = Evolution \<longrightarrow>
        view_evolution (App opens (fetchEvolution_settle s f (Inr d)))
          = Some (CommitEvolution opens f (data_evolution d) False)
        \<and> (\<forall>ev. data_evolution d = Some ev \<and> ev \<noteq> [] \<longrightarrow>
              map_option (map row_sha \<circ> rows)
                (Option.bind (view_evolution (App opens (fetchEvolution_settle s f (Inr d))))
                   list_view)
              = Some (map sha ev))
        \<and> view_evolution (App opens (fetchEvolution_settle s f (Inl e)))
          = Some (EvolutionEmpty (name f)))
   \<and> versions (fetchTimeline_settle s f (Inr d')) (feature_id f) = Some (data_versions d')
   \<and> versions (fetchTimeline_settle s f (Inl e)) (feature_id f) = Some (Some [])
   \<and> error (fetchTimeline_settle s f r') = error s
   \<and> view_error (App opens (fetchTimeline_settle s f r')) = view_error (App opens s)
   \<and> (analysis s \<noteq> None \<and> activeFeature s = Some f \<and> activeTab s = Timeline \<longrightarrow>
        view_timeline (App opens (fetchTimeline_settle s f (Inr d')))
          = Some (VersionTimeline f (data_versions d') False)
        \<and> (\<forall>vs. data_versions d' = Some vs \<and> vs \<noteq> [] \<longrightarrow>
              view_timeline (App opens (fetchTimeline_settle s f (Inr d')))
              = Some (TimelineList (name f) (length vs) (1 < length vs) vs))
        \<and> view_timeline (App opens (fetchTimeline_settle s f (Inl e)))
          = Some (TimelineEmpty (name f)))"
proof -
  have store: "evolutions (fetchEvolution_settle s f (Inr d)) (feature_id f) = Some (data_evolution d)"
    "evolutions (fetchEvolution_settle s f (Inl e)) (feature_id f) = Some (Some [])"
    "versions (fetchTimeline_settle s f (Inr d')) (feature_id f) = Some (data_versions d')"
    "versions (fetchTimeline_settle s f (Inl e)) (feature_id f) = Some (Some [])"
    by (simp_all add: fetchEvolution_settle_def fetchTimeline_settle_def)
  have err: "error (fetchEvolution_settle s f r) = error s"
    "view_error (App opens (fetchEvolution_settle s f r)) = view_error (App opens s)"
    "error (fetchTimeline_settle s f r') = error s"
    "view_error (App opens (fetchTimeline_settle s f r')) = view_error (App opens s)"
    by (simp_all add: fetchEvolution_settle_def fetchTimeline_settle_def App_def
        split: sum.splits)
  have ev: "view_evolution (App opens (fetchEvolution_settle s f (Inr d)))
          = Some (CommitEvolution opens f (data_evolution d) False)
        \<and> (\<forall>ev. data_evolution d = Some ev \<and> ev \<noteq> [] \<longrightarrow>
              map_option (map row_sha \<circ> rows)
                (Option.bind (view_evolution (App opens (fetchEvolution_settle s f (Inr d))))
                   list_view)
              = Some (map sha ev))
        \<and> view_evolution (App opens (fetchEvolution_settle s f (Inl e)))
          = Some (EvolutionEmpty (name f))"
    if "analysis s \<noteq> None" and "activeFeature s = Some f" and "activeTab s = Evolution"
  proof -
    from that obtain a where a: "analysis s = Some a" by auto
    have 1: "view_evolution (App opens (fetchEvolution_settle s f (Inr d)))
          = Some (CommitEvolution opens f (data_evolution d) False)"
      using a that by (simp add: App_def fetchEvolution_settle_def)
    have 2: "map_option (map row_sha \<circ> rows)
                (Option.bind (view_evolution (App opens (fetchEvolution_settle s f (Inr d))))
                   list_view)
              = Some (map sha xs)"
      if "data_evolution d = Some xs" and "xs \<noteq> []" for xs
    proof -
      have "map row_sha (map (\<lambda>(i, c). CommitRow (opens i) c) (enumerate 0 xs)) = map sha xs"
        by (rule nth_equalityI) (simp_all add: nth_enumerate_eq CommitRow_def Let_def)
      with that show ?thesis
        unfolding 1 by (simp add: CommitEvolution_def list_view_def)
    qed
    have 3: "view_evolution (App opens (fetchEvolution_settle s f (Inl e)))
          = Some (EvolutionEmpty (name f))"
      using a that by (simp add: App_def fetchEvolution_settle_def CommitEvolution_def)
    from 1 2 3 show ?thesis by blast
  qed
  have tl: "view_timeline (App opens (fetchTimeline_settle s f (Inr d')))
          = Some (VersionTimeline f (data_versions d') False)
        \<and> (\<forall>vs. data_versions d' = Some vs \<and> vs \<noteq> [] \<longrightarrow>
              view_timeline (App opens (fetchTimeline_settle s f (Inr d')))
              = Some (TimelineList (name f) (length vs) (1 < length vs) vs))
        \<and> view_timeline (App opens (fetchTimeline_settle s f (Inl e)))
          = Some (TimelineEmpty (name f))"
    if "analysis s \<noteq> None" and "activeFeature s = Some f" and "activeTab s = Timeline"
  proof -
    from that obtain a where a: "analysis s = Some a" by auto
    have 1: "view_timeline (App opens (fetchTimeline_settle s f (Inr d')))
          = Some (VersionTimeline f (data_versions d') False)"
      using a that by (simp add: App_def fetchTimeline_settle_def)
    have 2: "view_timeline (App opens (fetchTimeline_settle s f (Inr d')))
              = Some (TimelineList (name f) (length vs) (1 < length vs) vs)"
      if "data_versions d' = Some vs" and "vs \<noteq> []" for vs
      unfolding 1 using that by (simp add: VersionTimeline_def)
    have 3: "view_timeline (App opens (fetchTimeline_settle s f (Inl e)))
          = Some (TimelineEmpty (name f))"
      using a that by (simp add: App_def fetchTimeline_settle_def VersionTimeline_def)
    from 1 2 3 show ?thesis by blast
  qed
  from store err ev tl show ?thesis by blast
qed

theorem settled_request_stored_and_rendered_witness:
  "analysis selected_state \<noteq> None \<and> activeFeature selected_state = Some seven_files
   \<and> activeTab selected_state = Evolution
   \<and> evolutions (fetchEvolution_settle selected_state seven_files (Inl (Error ''Error 502'')))
       ''auth'' = Some (Some [])
   \<and> error (fetchEvolution_settle selected_state seven_files (Inl (Error ''Error 502''))) = []
   \<and> view_evolution (App (\<lambda>i. False)
        (fetchEvolution_settle selected_state seven_files (Inl (Error ''Error 502''))))
       = Some (EvolutionEmpty ''Authentication'')
   \<and> evolutions (fetchEvolution_settle selected_state seven_files
                   (Inr \<lparr> data_evolution = Some [first_commit, third_commit] \<rparr>)) ''auth''
       = Some (Some [first_commit, third_commit])
   \<and> map_option (map row_sha \<circ> rows)
        (Option.bind
           (view_evolution (App (\<lambda>i. False)
              (fetchEvolution_settle selected_state seven_files
                 (Inr \<lparr> data_evolution = Some [first_commit, third_commit] \<rparr>))))
           list_view)
       = Some [''a1b2c3d'', ''0718293'']
   \<and> view_timeline (App (\<lambda>i. False)
        (fetchTimeline_settle (selected_state\<lparr> activeTab := Timeline \<rparr>) seven_files
           (Inl (Error ''Error 502''))))
       = Some (TimelineEmpty ''Authentication'')"
proof -
  have h: "analysis selected_state \<noteq> None" "activeFeature selected_state = Some seven_files"
    "activeTab selected_state = Evolution"
    by (simp_all add: selected_state_def loaded_state_def)
  have h': "analysis (selected_state\<lparr> activeTab := Timeline \<rparr>) \<noteq> None"
    "activeFeature (selected_state\<lparr> activeTab := Timeline \<rparr>) = Some seven_files"
    "activeTab (selected_state\<lparr> activeTab := Timeline \<rparr>) = Timeline"
    using h by simp_all
  have n: "name seven_files = ''Authentication''" "feature_id seven_files = ''auth''"
    by (simp_all add: seven_files_def)
  have e: "error selected_state = []"
    by (simp add: selected_state_def loaded_state_def initial_state_def)
  have sh: "sha first_commit = ''a1b2c3d''" "sha third_commit = ''0718293''"
    by (simp_all add: first_commit_def third_commit_def)
  note i1 = settled_request_stored_and_rendered [where s = selected_state and f = seven_files
      and e = "Error ''Error 502''" and r = "Inl (Error ''Error 502'')" and opens = "\<lambda>i. False"
      and d = "\<lparr> data_evolution = Some [first_commit, third_commit] \<rparr>"
      and d' = "\<lparr> data_versions = None \<rparr>" and r' = "Inl (Error ''Error 502'')"]
  note i2 = settled_request_stored_and_rendered [where s = "selected_state\<lparr> activeTab := Timeline \<rparr>"
      and f = seven_files and e = "Error ''Error 502''" and r = "Inl (Error ''Error 502'')"
      and opens = "\<lambda>i. False" and d = "\<lparr> data_evolution = None \<rparr>"
      and d' = "\<lparr> data_versions = None \<rparr>" and r' = "Inl (Error ''Error 502'')"]
  from i1 have a: "evolutions (fetchEvolution_settle selected_state seven_files
        (Inl (Error ''Error 502''))) (feature_id seven_files) = Some (Some [])"
    and b: "error (fetchEvolution_settle selected_state seven_files (Inl (Error ''Error 502'')))
        = error selected_state"
    and c: "evolutions (fetchEvolution_settle selected_state seven_files
                   (Inr \<lparr> data_evolution = Some [first_commit, third_commit] \<rparr>))
              (feature_id seven_files)
       = Some (data_evolution \<lparr> data_evolution = Some [first_commit, third_commit] \<rparr>)"
    by blast+
  from i1 h have d: "view_evolution (App (\<lambda>i. False)
        (fetchEvolution_settle selected_state seven_files (Inl (Error ''Error 502''))))
       = Some (EvolutionEmpty (name seven_files))"
    by blast
  from i1 h have "\<forall>ev. data_evolution \<lparr> data_evolution = Some [first_commit, third_commit] \<rparr>
                      = Some ev \<and> ev \<noteq> [] \<longrightarrow>
      map_option (map row_sha \<circ> rows)
        (Option.bind
           (view_evolution (App (\<lambda>i. False)
              (fetchEvolution_settle selected_state seven_files
                 (Inr \<lparr> data_evolution = Some [first_commit, third_commit] \<rparr>))))
           list_view)
       = Some (map sha ev)"
    by blast
  then have f: "map_option (map row_sha \<circ> rows)
        (Option.bind
           (view_evolution (App (\<lambda>i. False)
              (fetchEvolution_settle selected_state seven_files
                 (Inr \<lparr> data_evolution = Some [first_commit, third_commit] \<rparr>))))
           list_view)
       = Some (map sha [first_commit, third_commit])"
    by simp
  from i2 h' have g: "view_timeline (App (\<lambda>i. False)
        (fetchTimeline_settle (selected_state\<lparr> activeTab := Timeline \<rparr>) seven_files
           (Inl (Error ''Error 502''))))
       = Some (TimelineEmpty (name seven_files))"
    by blast
  from h a b c d f g show ?thesis
    by (simp add: n e sh)
qed

text \<open>
  Claim C1 as stated fails in this run: the user analyses a repository, selects a feature
  and opens the evolution tab; the request is answered with status 500 and so rejects.
  Afterwards the empty list is stored for the feature, no error is shown, and the panel says
  that no evolution could be determined.
\<close>

theorem rejected_evolution_counterexample:
  "(getFeatureEvolution rate_limited :: js_error + evolution_data)
     = Inl (Error ''GitHub rate limit exceeded'')
   \<and> map_option (\<lambda>w. (evolutions (app w) ''auth'',
                       view_error (App (\<lambda>i. False) (app w)),
                       view_evolution (App (\<lambda>i. False) (app w))))
       (run initial_world
          [Submit typed_text,
           AnalyzeSettled shop_url (ok_response shop_analysis),
           SelectFeature seven_files,
           TabSwitch Evolution,
           EvolutionSettled ''acme/shop'' seven_files rate_limited])
     = Some (Some (Some []), None, Some (EvolutionEmpty ''Authentication''))"
  by (simp add: run_defs App_def CommitEvolution_def seven_files_def)

text \<open>
  Two reads that are not of a stored list. A feature whose id is \<^verbatim>\<open>constructor\<close> is never
  fetched, and its panel cannot be rendered. A response without the field is stored as
  \<^verbatim>\<open>undefined\<close>, and the next request for the feature is sent again.
\<close>

lemma inherited_id_is_never_fetched:
  assumes "feature_id f = ''constructor''" and "evolutions s (feature_id f) = None"
    and "analysis s = Some a" and "activeFeature s = Some f" and "activeTab s = Evolution"
  shows "fetchEvolution_begin s f = (s, [])"
    and "view_evolution (App opens s) = Some EvolutionRenderFails"
  using assms
  by (simp_all add: fetchEvolution_begin_def read_truthy_def object_prototype_names_def
      zero_length_names_def App_def)

lemma missing_field_is_fetched_again:
  assumes "analysis s = Some a"
  shows "snd (fetchEvolution_begin
                (fetchEvolution_settle s f (Inr \<lparr> data_evolution = None \<rparr>)) f)
           = [GetFeatureEvolution (repo a) f]"
  using assms
  by (simp add: fetchEvolution_begin_def fetchEvolution_settle_def read_truthy_def)

lemma fetchEvolution_begin_cached:
  "read_truthy (evolutions s) (feature_id f) \<Longrightarrow> fetchEvolution_begin s f = (s, [])"
  by (simp add: fetchEvolution_begin_def)

lemma fetchTimeline_begin_cached:
  "read_truthy (versions s) (feature_id f) \<Longrightarrow> fetchTimeline_begin s f = (s, [])"
  by (simp add: fetchTimeline_begin_def)

lemma fetchEvolution_begin_frame:
  "evolutions s k = Some (Some ev) \<Longrightarrow>
   evolutions (fst (fetchEvolution_begin s f)) k = Some (Some ev)
   \<and> (\<forall>c\<in>set (snd (fetchEvolution_begin s f)). \<not> evolution_call_for k c)"
  by (auto simp: fetchEvolution_begin_def read_truthy_def evolution_call_for_def
      split: option.splits)

lemma fetchTimeline_begin_frame:
  "evolutions (fst (fetchTimeline_begin s f)) = evolutions s
   \<and> (\<forall>c\<in>set (snd (fetchTimeline_begin s f)). \<not> evolution_call_for k c)"
  by (auto simp: fetchTimeline_begin_def evolution_call_for_def split: option.splits)

lemma fetchTimeline_begin_frame':
  "versions s k = Some (Some vs) \<Longrightarrow>
   versions (fst (fetchTimeline_begin s f)) k = Some (Some vs)
   \<and> (\<forall>c\<in>set (snd (fetchTimeline_begin s f)). \<not> timeline_call_for k c)"
  by (auto simp: fetchTimeline_begin_def read_truthy_def timeline_call_for_def
      split: option.splits)

lemma fetchEvolution_begin_frame':
  "versions (fst (fetchEvolution_begin s f)) = versions s
   \<and> (\<forall>c\<in>set (snd (fetchEvolution_begin s f)). \<not> timeline_call_for k c)"
  by (auto simp: fetchEvolution_begin_def timeline_call_for_def split: option.splits)

lemma filter_no_new:
  "\<forall>c\<in>set ys. \<not> P c \<Longrightarrow> filter P (xs @ ys) = filter P xs"
  by (induction ys) auto

lemma step_keeps_evolution:
  assumes st: "evolutions (app w) k = Some (Some ev)"
    and pe: "\<forall>c\<in>set (pending w). \<not> evolution_call_for k c"
    and ns: "\<not> is_submit e"
    and step: "step w e = Some w'"
  shows "evolutions (app w') k = Some (Some ev)
         \<and> (\<forall>c\<in>set (pending w'). \<not> evolution_call_for k c)
         \<and> filter (evolution_call_for k) (calls w') = filter (evolution_call_for k) (calls w)"
proof (cases e)
  case (Submit u)
  with ns show ?thesis by (simp add: is_submit_def)
next
  case (SelectFeature f)
  have a: "evolutions (fst (handleSelectFeature (app w) f)) k = Some (Some ev)
      \<and> (\<forall>c\<in>set (snd (handleSelectFeature (app w) f)). \<not> evolution_call_for k c)"
    using st fetchEvolution_begin_frame [of "(app w)\<lparr> activeFeature := Some f \<rparr>" k ev f]
      fetchTimeline_begin_frame [of "(app w)\<lparr> activeFeature := Some f \<rparr>" f k]
    by (auto simp: handleSelectFeature_def)
  from step SelectFeature have "w' = issue w (handleSelectFeature (app w) f)"
    by (auto split: option.splits if_splits)
  with a pe show ?thesis
    by (auto simp: issue_def filter_no_new)
next
  case (TabSwitch t)
  have a: "evolutions (fst (handleTabSwitch (app w) t)) k = Some (Some ev)
      \<and> (\<forall>c\<in>set (snd (handleTabSwitch (app w) t)). \<not> evolution_call_for k c)"
  proof (cases "activeFeature (app w)")
    case None
    with st show ?thesis by (simp add: handleTabSwitch_def)
  next
    case (Some f)
    with st fetchEvolution_begin_frame [of "(app w)\<lparr> activeTab := t \<rparr>" k ev f]
      fetchTimeline_begin_frame [of "(app w)\<lparr> activeTab := t \<rparr>" f k]
    show ?thesis by (auto simp: handleTabSwitch_def)
  qed
  from step TabSwitch have "w' = issue w (handleTabSwitch (app w) t)"
    by (auto split: if_splits)
  with a pe show ?thesis
    by (auto simp: issue_def filter_no_new)
next
  case (AnalyzeSettled url out)
  with step have "w' = settle w (AnalyzeRepo url) (handleAnalyze_settle (app w) (analyzeRepo out))"
    by (auto split: if_splits)
  with st pe show ?thesis
    by (auto simp: settle_def handleAnalyze_settle_def split: sum.splits
        dest: notin_set_remove1 [THEN notE, rotated])
next
  case (TimelineSettled r f out)
  with step have "w' = settle w (GetFeatureTimeline r f)
                   (fetchTimeline_settle (app w) f (getFeatureTimeline out))"
    by (auto split: if_splits)
  with st pe show ?thesis
    by (auto simp: settle_def fetchTimeline_settle_def split: sum.splits
        dest: notin_set_remove1 [THEN notE, rotated])
next
  case (EvolutionSettled r f out)
  with step have p: "GetFeatureEvolution r f \<in> set (pending w)"
    and w': "w' = settle w (GetFeatureEvolution r f)
                   (fetchEvolution_settle (app w) f (getFeatureEvolution out))"
    by (auto split: if_splits)
  from p pe have "feature_id f \<noteq> k"
    by (auto simp: evolution_call_for_def)
  with st pe w' show ?thesis
    by (auto simp: settle_def fetchEvolution_settle_def split: sum.splits
        dest: notin_set_remove1 [THEN notE, rotated])
qed

lemma step_keeps_versions:
  assumes st: "versions (app w) k = Some (Some vs)"
    and pe: "\<forall>c\<in>set (pending w). \<not> timeline_call_for k c"
    and ns: "\<not> is_submit e"
    and step: "step w e = Some w'"
  shows "versions (app w') k = Some (Some vs)
         \<and> (\<forall>c\<in>set (pending w'). \<not> timeline_call_for k c)
         \<and> filter (timeline_call_for k) (calls w') = filter (timeline_call_for k) (calls w)"
proof (cases e)
  case (Submit u)
  with ns show ?thesis by (simp add: is_submit_def)
next
  case (SelectFeature f)
  have a: "versions (fst (handleSelectFeature (app w) f)) k = Some (Some vs)
      \<and> (\<forall>c\<in>set (snd (handleSelectFeature (app w) f)). \<not> timeline_call_for k c)"
    using st fetchTimeline_begin_frame' [of "(app w)\<lparr> activeFeature := Some f \<rparr>" k vs f]
      fetchEvolution_begin_frame' [of "(app w)\<lparr> activeFeature := Some f \<rparr>" f k]
    by (auto simp: handleSelectFeature_def)
  from step SelectFeature have "w' = issue w (handleSelectFeature (app w) f)"
    by (auto split: option.splits if_splits)
  with a pe show ?thesis
    by (auto simp: issue_def filter_no_new)
next
  case (TabSwitch t)
  have a: "versions (fst (handleTabSwitch (app w) t)) k = Some (Some vs)
      \<and> (\<forall>c\<in>set (snd (handleTabSwitch (app w) t)). \<not> timeline_call_for k c)"
  proof (cases "activeFeature (app w)")
    case None
    with st show ?thesis by (simp add: handleTabSwitch_def)
  next
    case (Some f)
    with st fetchTimeline_begin_frame' [of "(app w)\<lparr> activeTab := t \<rparr>" k vs f]
      fetchEvolution_begin_frame' [of "(app w)\<lparr> activeTab := t \<rparr>" f k]
    show ?thesis by (auto simp: handleTabSwitch_def)
  qed
  from step TabSwitch have "w' = issue w (handleTabSwitch (app w) t)"
    by (auto split: if_splits)
  with a pe show ?thesis
    by (auto simp: issue_def filter_no_new)
next
  case (AnalyzeSettled url out)
  with step have "w' = settle w (AnalyzeRepo url) (handleAnalyze_settle (app w) (analyzeRepo out))"
    by (auto split: if_splits)
  with st pe show ?thesis
    by (auto simp: settle_def handleAnalyze_settle_def split: sum.splits
        dest: notin_set_remove1 [THEN notE, rotated])
next
  case (TimelineSettled r f out)
  with step have p: "GetFeatureTimeline r f \<in> set (pending w)"
    and w': "w' = settle w (GetFeatureTimeline r f)
                   (fetchTimeline_settle (app w) f (getFeatureTimeline out))"
    by (auto split: if_splits)
  from p pe have "feature_id f \<noteq> k"
    by (auto simp: timeline_call_for_def)
  with st pe w' show ?thesis
    by (auto simp: settle_def fetchTimeline_settle_def split: sum.splits
        dest: notin_set_remove1 [THEN notE, rotated])
next
  case (EvolutionSettled r f out)
  with step have "w' = settle w (GetFeatureEvolution r f)
                   (fetchEvolution_settle (app w) f (getFeatureEvolution out))"
    by (auto split: if_splits)
  with st pe show ?thesis
    by (auto simp: settle_def fetchEvolution_settle_def split: sum.splits
        dest: notin_set_remove1 [THEN notE, rotated])
qed


lemma run_keeps_evolution:
  assumes "evolutions (app w) k = Some (Some ev)"
    and "\<forall>c\<in>set (pending w). \<not> evolution_call_for k c"
    and "\<forall>e\<in>set es. \<not> is_submit e"
    and "run w es = Some w'"
  shows "evolutions (app w') k = Some (Some ev)
         \<and> filter (evolution_call_for k) (calls w') = filter (evolution_call_for k) (calls w)"
  using assms
proof (induction es arbitrary: w)
  case Nil
  then show ?case by simp
next
  case (Cons e es)
  from Cons.prems(4) obtain w1 where s: "step w e = Some w1" and r: "run w1 es = Some w'"
    by (auto split: option.splits)
  from Cons.prems(3) have ns: "\<not> is_submit e" and rest: "\<forall>e\<in>set es. \<not> is_submit e"
    by simp_all
  from step_keeps_evolution [OF Cons.prems(1) Cons.prems(2) ns s]
  have a: "evolutions (app w1) k = Some (Some ev)"
    and b: "\<forall>c\<in>set (pending w1). \<not> evolution_call_for k c"
    and c: "filter (evolution_call_for k) (calls w1) = filter (evolution_call_for k) (calls w)"
    by blast+
  from Cons.IH [OF a b rest r] c show ?case by simp
qed

lemma run_keeps_versions:
  assumes "versions (app w) k = Some (Some vs)"
    and "\<forall>c\<in>set (pending w). \<not> timeline_call_for k c"
    and "\<forall>e\<in>set es. \<not> is_submit e"
    and "run w es = Some w'"
  shows "versions (app w') k = Some (Some vs)
         \<and> filter (timeline_call_for k) (calls w') = filter (timeline_call_for k) (calls w)"
  using assms
proof (induction es arbitrary: w)
  case Nil
  then show ?case by simp
next
  case (Cons e es)
  from Cons.prems(4) obtain w1 where s: "step w e = Some w1" and r: "run w1 es = Some w'"
    by (auto split: option.splits)
  from Cons.prems(3) have ns: "\<not> is_submit e" and rest: "\<forall>e\<in>set es. \<not> is_submit e"
    by simp_all
  from step_keeps_versions [OF Cons.prems(1) Cons.prems(2) ns s]
  have a: "versions (app w1) k = Some (Some vs)"
    and b: "\<forall>c\<in>set (pending w1). \<not> timeline_call_for k c"
    and c: "filter (timeline_call_for k) (calls w1) = filter (timeline_call_for k) (calls w)"
    by blast+
  from Cons.IH [OF a b rest r] c show ?case by simp
qed

text \<open>
  Claim C3, as amended. Once a list, empty or not, is stored for a feature id and no request
  for that id is in flight, then for the rest of the session, that is until the form is
  submitted again, the stored list stays what it is and no further request for that id is
  sent, whatever the user clicks and whatever other requests settle. \<^verbatim>\<open>fetchEvolution\<close>
  (\<^verbatim>\<open>fetchTimeline\<close>) returns at its first line, sending nothing and changing nothing,
  whenever the read of the id is truthy.
\<close>

theorem stored_list_is_kept:
  assumes "\<forall>e\<in>set es. \<not> is_submit e" and "run w es = Some w'"
  shows "(evolutions (app w) k = Some (Some ev)
            \<and> (\<forall>c\<in>set (pending w). \<not> evolution_call_for k c) \<longrightarrow>
          evolutions (app w') k = Some (Some ev)
          \<and> filter (evolution_call_for k) (calls w') = filter (evolution_call_for k) (calls w))
         \<and> (versions (app w) k = Some (Some vs)
            \<and> (\<forall>c\<in>set (pending w). \<not> timeline_call_for k c) \<longrightarrow>
          versions (app w') k = Some (Some vs)
          \<and> filter (timeline_call_for k) (calls w') = filter (timeline_call_for k) (calls w))
         \<and> (\<forall>s f. read_truthy (evolutions s) (feature_id f) \<longrightarrow>
               fetchEvolution_begin s f = (s, []))
         \<and> (\<forall>s f. read_truthy (versions s) (feature_id f) \<longrightarrow>
               fetchTimeline_begin s f = (s, []))"
  using run_keeps_evolution [OF _ _ assms] run_keeps_versions [OF _ _ assms]
    fetchEvolution_begin_cached fetchTimeline_begin_cached
  by blast

theorem stored_list_is_kept_witness:
  "list_all (\<lambda>e. \<not> is_submit e) browsing_clicks
   \<and> pending browsing_world = []
   \<and> evolutions (app browsing_world) ''auth'' = Some (Some [first_commit])
   \<and> versions (app browsing_world) ''auth'' = Some (Some [])
   \<and> map_option (\<lambda>w. (evolutions (app w) ''auth'', versions (app w) ''auth'', calls w,
                       activeTab (app w)))
        (run browsing_world browsing_clicks)
       = Some (Some (Some [first_commit]), Some (Some []), [], Timeline)"
proof -
  have r: "run browsing_world browsing_clicks
             = Some \<lparr> app = browsing_state\<lparr> activeTab := Timeline \<rparr>, calls = [], pending = [] \<rparr>"
    by (simp add: browsing_world_def browsing_clicks_def browsing_state_def loaded_state_def
        run_defs seven_files_def)
  have n: "\<forall>e\<in>set browsing_clicks. \<not> is_submit e"
    by (simp add: browsing_clicks_def is_submit_def)
  have s: "evolutions (app browsing_world) ''auth'' = Some (Some [first_commit])"
    "versions (app browsing_world) ''auth'' = Some (Some [])"
    "pending browsing_world = []"
    by (simp_all add: browsing_world_def browsing_state_def)
  from stored_list_is_kept [OF n r, of "''auth''" "[first_commit]" "[]"] s
  have "evolutions (app \<lparr> app = browsing_state\<lparr> activeTab := Timeline \<rparr>, calls = [],
                          pending = [] \<rparr>) ''auth'' = Some (Some [first_commit])"
    by simp
  with n s r show ?thesis
    by (simp add: list_all_iff browsing_state_def browsing_world_def)
qed

text \<open>
  Claim C3 as stated fails in this run: the feature's card is clicked again before the
  first evolution request has settled, so two requests for the feature are in flight. The
  first resolves and its list is stored. A later click returns early and sends nothing. Then
  the second request rejects, and the stored list is replaced by the empty list.
\<close>

theorem overwritten_entry_counterexample:
  "map_option (\<lambda>w. (evolutions (app w) ''auth'', pending w))
     (run initial_world
        [Submit typed_text,
         AnalyzeSettled shop_url (ok_response shop_analysis),
         SelectFeature seven_files,
         TabSwitch Evolution,
         SelectFeature seven_files,
         EvolutionSettled ''acme/shop'' seven_files
           (ok_response \<lparr> data_evolution = Some [first_commit] \<rparr>)])
   = Some (Some (Some [first_commit]),
           [GetFeatureTimeline ''acme/shop'' seven_files,
            GetFeatureEvolution ''acme/shop'' seven_files])
   \<and> map_option (\<lambda>w. (evolutions (app w) ''auth'', calls w))
     (run initial_world
        [Submit typed_text,
         AnalyzeSettled shop_url (ok_response shop_analysis),
         SelectFeature seven_files,
         TabSwitch Evolution,
         SelectFeature seven_files,
         EvolutionSettled ''acme/shop'' seven_files
           (ok_response \<lparr> data_evolution = Some [first_commit] \<rparr>),
         SelectFeature seven_files,
         EvolutionSettled ''acme/shop'' seven_files rate_limited])
   = Some (Some (Some []),
           [AnalyzeRepo shop_url,
            GetFeatureTimeline ''acme/shop'' seven_files,
            GetFeatureEvolution ''acme/shop'' seven_files,
            GetFeatureEvolution ''acme/shop'' seven_files])"
  by (simp add: run_defs seven_files_def)

text \<open>
  \<^verbatim>\<open>handleAnalyze\<close> clears the analysis, the active feature and both caches before it sends its
  one request.
\<close>

lemma handleAnalyze_clears_session:
  "analysis (fst (handleAnalyze_begin s url)) = None
   \<and> activeFeature (fst (handleAnalyze_begin s url)) = None
   \<and> versions (fst (handleAnalyze_begin s url)) k = None
   \<and> evolutions (fst (handleAnalyze_begin s url)) k = None
   \<and> snd (handleAnalyze_begin s url) = [AnalyzeRepo url]"
  by (simp add: handleAnalyze_begin_def)

text \<open>
  Claim C8. A new analysis begins a new session, and no cache entry keyed by a feature id of
  the previous session should be observable in it. The code clears the caches but does not
  keep this: with the evolution request for feature \<^verbatim>\<open>auth\<close> of \<^verbatim>\<open>acme/shop\<close> still pending, the
  user submits another repository; the pending request then resolves and writes its list
  under \<^verbatim>\<open>auth\<close> into the cleared cache. The new analysis, of \<^verbatim>\<open>acme/blog\<close>, has a feature with
  the id \<^verbatim>\<open>auth\<close> too; selecting it sends no request, and the panel shows the commit of
  \<^verbatim>\<open>acme/shop\<close>.
\<close>

theorem stale_response_in_new_session:
  "map_option (\<lambda>w. (map_option repo (analysis (app w)),
                     map_option name (activeFeature (app w)),
                     evolutions (app w) ''auth'',
                     filter (evolution_call_for ''auth'') (calls w),
                     map_option list_view (view_evolution (App (\<lambda>i. False) (app w)))))
     (run initial_world
        [Submit typed_text,
         AnalyzeSettled shop_url (ok_response shop_analysis),
         SelectFeature seven_files,
         TabSwitch Evolution,
         Submit blog_url,
         EvolutionSettled ''acme/shop'' seven_files
           (ok_response \<lparr> data_evolution = Some [first_commit] \<rparr>),
         AnalyzeSettled blog_url (ok_response blog_analysis),
         SelectFeature blog_feature])
   = Some (Some ''acme/blog'', Some ''Authorization'', Some (Some [first_commit]),
           [GetFeatureEvolution ''acme/shop'' seven_files],
           Some (Some \<lparr> totalCommits = 1, commits_plural = False, totalAdds = 12,
                        totalDels = 3, rows = [CommitRow False first_commit] \<rparr>))"
proof -
  have j: "js_add 0 12 = 12" "js_add 0 3 = 3"
    by (simp_all add: js_add_exact)
  show ?thesis
    by (simp add: run_defs App_def CommitEvolution_def list_view_def blog_feature_def
        seven_files_def or_zero_def first_commit_def evolution_call_for_def j)
qed

subsection \<open>Runs\<close>









subsection \<open>The order of the evolution entries\<close>

lemma sorted_store: "sorted (map commit_key (history_store commits))"
  by (simp add: history_store_def)

lemma distinct_keys_store:
  assumes "distinct (map commit_id commits)"
  shows "distinct (map commit_key (history_store commits))"
proof -
  have "distinct (map commit_id (history_store commits))"
    using assms mset_eq_imp_distinct_iff [of "map commit_id (history_store commits)"
        "map commit_id commits"]
    by (simp add: history_store_def)
  then have "distinct (map (\<lambda>c. snd (commit_key c)) (history_store commits))"
    by (simp add: commit_key_def)
  then have "distinct (map snd (map commit_key (history_store commits)))"
    by (simp add: comp_def)
  then show ?thesis
    by (auto simp: distinct_map inj_on_def)
qed

lemma select_sorted_distinct:
  assumes "distinct (map commit_id commits)"
  shows "sorted (map commit_key (select (history_store commits) fileSet))"
    and "distinct (map commit_key (select (history_store commits) fileSet))"
  unfolding select_def
  by (simp_all add: sorted_filter sorted_store distinct_map_filter
      distinct_keys_store [OF assms])

lemma narrate_any_order:
  assumes s: "sorted (map commit_key cs)" and d: "distinct (map commit_key cs)"
    and p: "mset completion = mset [0..<length cs]"
  shows "narrate summarize completion fileSet cs = map (make_entry summarize fileSet) cs"
proof -
  let ?mk = "make_entry summarize fileSet"
  let ?k = "\<lambda>e. commit_key (entry_commit e)"
  have inr: "\<forall>i\<in>set completion. i < length cs"
    using mset_eq_setD [OF p] by auto
  then have f: "filter (\<lambda>i. i < length cs) completion = completion"
    by simp
  have "mset (map (\<lambda>i. ?mk (cs ! i)) completion)
          = image_mset (\<lambda>i. ?mk (cs ! i)) (mset completion)"
    by simp
  also have "\<dots> = image_mset (\<lambda>i. ?mk (cs ! i)) (mset [0..<length cs])"
    by (simp only: p)
  also have "\<dots> = mset (map ?mk (map (\<lambda>i. cs ! i) [0..<length cs]))"
    by (simp add: comp_def)
  also have "\<dots> = mset (map ?mk cs)"
    by (simp only: map_nth)
  finally have m: "mset (map (\<lambda>i. ?mk (cs ! i)) completion) = mset (map ?mk cs)" .
  have key: "?k (?mk c) = commit_key c" for c
    by (simp add: make_entry_def)
  have inj_k: "inj_on commit_key (set cs)"
    using d by (simp add: distinct_map)
  have "inj_on ?k (set (map ?mk cs))"
    using inj_k by (auto simp: inj_on_def key)
  then have inj: "inj_on ?k (set (map (\<lambda>i. ?mk (cs ! i)) completion))"
    using mset_eq_setD [OF m] by simp
  have so: "sorted (map ?k (map ?mk cs))"
    using s by (simp add: comp_def key)
  have "sort_key ?k (map (\<lambda>i. ?mk (cs ! i)) completion) = map ?mk cs"
    using m inj so by (rule sort_key_inj_key_eq)
  then show ?thesis
    by (simp add: narrate_def f)
qed

lemma rows_in_order:
  "list_view (CommitEvolution opens f (Some ev) False) = Some v \<Longrightarrow>
   rows v = map (\<lambda>i. CommitRow (opens i) (ev ! i)) [0..<length ev]"
  by (auto simp: CommitEvolution_def list_view_def enumerate_eq_zip map_zip_map2
      split: if_splits intro!: nth_equalityI)


lemma sorted_timestamps:
  "sorted (map commit_key cs) \<Longrightarrow> sorted (map timestamp cs)"
  by (induction cs) (auto simp: commit_key_def less_eq_prod_def)

text \<open>
  Claim C4. Let the commits of the repository have distinct identifiers, and let every
  relevant commit's summary complete once, in any order. Then the list of entries is the
  relevant commits of the store in ascending order, one entry each, whatever the completion
  order was: their timestamps never decrease along the list and their keys (timestamp, then
  identifier) strictly increase. The list panel of \<^verbatim>\<open>CommitEvolution\<close> for the list as the
  presentation layer receives it shows, at every index, the row of the entry at that index.
\<close>

theorem evolution_entries_oldest_first:
  assumes "distinct (map commit_id commits)"
    and "mset completion = mset [0..<length (select (history_store commits) fileSet)]"
  shows "feature_evolution summarize completion commits fileSet
           = map (make_entry summarize fileSet) (select (history_store commits) fileSet)
         \<and> sorted (map (\<lambda>e. timestamp (entry_commit e))
                     (feature_evolution summarize completion commits fileSet))
         \<and> sorted_wrt (<) (map (\<lambda>e. commit_key (entry_commit e))
                              (feature_evolution summarize completion commits fileSet))
         \<and> (\<forall>v. list_view (CommitEvolution opens f
                     (Some (map (present short show_date)
                              (feature_evolution summarize completion commits fileSet)))
                     False) = Some v \<longrightarrow>
               rows v = map (\<lambda>i. CommitRow (opens i)
                                   (present short show_date
                                      (feature_evolution summarize completion commits fileSet ! i)))
                          [0..<length (feature_evolution summarize completion commits fileSet)])"
proof -
  let ?cs = "select (history_store commits) fileSet"
  let ?es = "feature_evolution summarize completion commits fileSet"
  have s: "sorted (map commit_key ?cs)" and d: "distinct (map commit_key ?cs)"
    using select_sorted_distinct [OF assms(1)] by simp_all
  have eq: "?es = map (make_entry summarize fileSet) ?cs"
    unfolding feature_evolution_def using s d assms(2) by (rule narrate_any_order)
  have keys: "map (\<lambda>e. commit_key (entry_commit e)) ?es = map commit_key ?cs"
    by (simp add: eq comp_def make_entry_def)
  have times: "map (\<lambda>e. timestamp (entry_commit e)) ?es = map timestamp ?cs"
    by (simp add: eq comp_def make_entry_def)
  have a: "sorted (map (\<lambda>e. timestamp (entry_commit e)) ?es)"
    using s by (simp only: times sorted_timestamps)
  have b: "sorted_wrt (<) (map (\<lambda>e. commit_key (entry_commit e)) ?es)"
    using s d by (simp only: keys strict_sorted_iff)
  have c: "rows v = map (\<lambda>i. CommitRow (opens i) (present short show_date (?es ! i)))
                      [0..<length ?es]"
    if "list_view (CommitEvolution opens f (Some (map (present short show_date) ?es)) False)
          = Some v" for v
    using rows_in_order [OF that] by simp
  from eq a b c show ?thesis by blast
qed

lemma scenario_select:
  "map commit_id (select (history_store scenario_commits) [''a.js'']) = [''c1'', ''c3'']"
  by (simp add: select_def history_store_def scenario_commits_def commit_key_def
      less_eq_prod_def)

theorem evolution_entries_oldest_first_witness:
  "distinct (map commit_id scenario_commits)
   \<and> mset [1, 0] = mset [0..<length (select (history_store scenario_commits) [''a.js''])]
   \<and> map (\<lambda>e. (commit_id (entry_commit e), timestamp (entry_commit e),
                  totalAdditions (entry_stats e), totalDeletions (entry_stats e), narrative e))
        (feature_evolution scenario_summarizer [1, 0] scenario_commits [''a.js''])
       = [(''c1'', 1, 10, 0, ''Creates the module.''), (''c3'', 3, 4, 1, ''summary unavailable'')]
   \<and> map_option (map row_message \<circ> rows)
        (list_view (CommitEvolution (\<lambda>i. False) seven_files
           (Some (map (present (take 7) show_int)
                    (feature_evolution scenario_summarizer [1, 0] scenario_commits [''a.js''])))
           False))
       = Some [''Start'', ''Both'']"
proof -
  have d: "distinct (map commit_id scenario_commits)"
    by (simp add: scenario_commits_def)
  have l: "length (select (history_store scenario_commits) [''a.js'']) = 2"
    using arg_cong [OF scenario_select, of length] by simp
  have p: "mset [1, 0] = mset [0..<length (select (history_store scenario_commits) [''a.js''])]"
  proof -
    have u: "[0..<(2::nat)] = [0, 1]" by code_simp
    show ?thesis unfolding l u by (simp add: add_mset_commute)
  qed
  have sel: "select (history_store scenario_commits) [''a.js'']
               = [scenario_commits ! 1, scenario_commits ! 0]"
    by (simp add: select_def history_store_def scenario_commits_def commit_key_def
        less_eq_prod_def)
  note inst = evolution_entries_oldest_first [OF d p, of scenario_summarizer
      "\<lambda>i. False" seven_files "take 7" show_int]
  from inst have es: "feature_evolution scenario_summarizer [1, 0] scenario_commits [''a.js'']
      = map (make_entry scenario_summarizer [''a.js''])
          (select (history_store scenario_commits) [''a.js''])"
    by blast
  have val: "feature_evolution scenario_summarizer [1, 0] scenario_commits [''a.js'']
      = map (make_entry scenario_summarizer [''a.js''])
          [scenario_commits ! 1, scenario_commits ! 0]"
    unfolding es sel by (rule refl)
  have third: "map (\<lambda>e. (commit_id (entry_commit e), timestamp (entry_commit e),
                  totalAdditions (entry_stats e), totalDeletions (entry_stats e), narrative e))
        (feature_evolution scenario_summarizer [1, 0] scenario_commits [''a.js''])
       = [(''c1'', 1, 10, 0, ''Creates the module.''), (''c3'', 3, 4, 1, ''summary unavailable'')]"
    unfolding val
    by (simp add: scenario_commits_def make_entry_def aggregate_def scenario_summarizer_def)
  have fourth: "map_option (map row_message \<circ> rows)
        (list_view (CommitEvolution (\<lambda>i. False) seven_files
           (Some (map (present (take 7) show_int)
                    (feature_evolution scenario_summarizer [1, 0] scenario_commits [''a.js''])))
           False))
       = Some [''Start'', ''Both'']"
    unfolding val
    by (simp add: scenario_commits_def make_entry_def list_view_def CommitEvolution_def
        present_def CommitRow_def Let_def)
  from d p third fourth show ?thesis by blast
qed

end
